theory Spec2Isabelle
  imports Complex_Main "HOL-Library.AList" "HOL-Library.Log_Nat"
begin

section \<open>JavaScript values\<close>

text \<open>
  The dashboard pages are JavaScript. Their data are primitive JavaScript values held in
  plain objects (CSV rows, form states, store documents). A number is kept as a rational,
  with \<open>NaN\<close> and the two infinities beside it. The quotient and the product of two
  numbers are rounded to the nearest binary64 value, as IEEE 754 has them. Sums and
  differences are kept exact, as they are in binary64 on the whole numbers of magnitude
  up to \<open>2 ^ 53\<close> that the pages add and compare; the sign of zero is not part of the
  model.
\<close>

datatype jsnum = Fin rat | NaN | PInf | NInf

datatype jsval = Undefined | Null | Bool bool | Num jsnum | Str string

text \<open>An object: its own properties in insertion order.\<close>

type_synonym obj = "(string \<times> jsval) list"

definition obj_get :: "obj \<Rightarrow> string \<Rightarrow> jsval" where
  "obj_get ob k = (case map_of ob k of None \<Rightarrow> Undefined | Some v \<Rightarrow> v)"

definition obj_set :: "obj \<Rightarrow> string \<Rightarrow> jsval \<Rightarrow> obj" where
  "obj_set ob k v = AList.update k v ob"

subsection \<open>Truthiness and the \<open>||\<close> operator\<close>

fun truthy :: "jsval \<Rightarrow> bool" where
  "truthy Undefined = False"
| "truthy Null = False"
| "truthy (Bool b) = b"
| "truthy (Num n) = (n \<noteq> Fin 0 \<and> n \<noteq> NaN)"
| "truthy (Str s) = (s \<noteq> [])"

definition js_or :: "jsval \<Rightarrow> jsval \<Rightarrow> jsval" where
  "js_or a b = (if truthy a then a else b)"

subsection \<open>Arithmetic on numbers\<close>

fun js_neg :: "jsnum \<Rightarrow> jsnum" where
  "js_neg (Fin a) = Fin (- a)"
| "js_neg NaN = NaN"
| "js_neg PInf = NInf"
| "js_neg NInf = PInf"

fun num_add :: "jsnum \<Rightarrow> jsnum \<Rightarrow> jsnum" where
  "num_add (Fin a) (Fin b) = Fin (a + b)"
| "num_add NaN _ = NaN"
| "num_add _ NaN = NaN"
| "num_add PInf NInf = NaN"
| "num_add NInf PInf = NaN"
| "num_add PInf _ = PInf"
| "num_add _ PInf = PInf"
| "num_add NInf _ = NInf"
| "num_add _ NInf = NInf"

definition num_sub :: "jsnum \<Rightarrow> jsnum \<Rightarrow> jsnum" where
  "num_sub a b = num_add a (js_neg b)"

text \<open>The sign of a number: \<open>None\<close> for \<open>NaN\<close>.\<close>

fun num_sgn :: "jsnum \<Rightarrow> int option" where
  "num_sgn (Fin a) = Some (if a < 0 then - 1 else if a = 0 then 0 else 1)"
| "num_sgn NaN = None"
| "num_sgn PInf = Some 1"
| "num_sgn NInf = Some (- 1)"

definition inf_of_sign :: "int \<Rightarrow> jsnum" where
  "inf_of_sign s = (if s < 0 then NInf else if s = 0 then NaN else PInf)"

subsection \<open>Rounding to binary64\<close>

text \<open>
  The quotient and the product of two numbers are the exact results rounded to the
  nearest binary64 value, a tie going to the even significand (IEEE 754,
  \<open>roundTiesToEven\<close>). A positive \<open>a\<close> is written \<open>m * 2 ^ e\<close> with \<open>e\<close> the exponent of its
  unit in the last place: \<open>\<lfloor>log\<^sub>2 a\<rfloor> - 52\<close>, so that \<open>2 ^ 52 \<le> m < 2 ^ 53\<close>, and never below
  \<open>-1074\<close>, where the subnormal numbers lie; \<open>m\<close> is rounded to an integer, and a result
  from \<open>2 ^ 1024\<close> on is infinite.
\<close>

definition round_half_even :: "rat \<Rightarrow> int" where
  "round_half_even m =
     (let f = \<lfloor>m\<rfloor>
      in if m - of_int f < 1 / 2 then f
         else if 1 / 2 < m - of_int f then f + 1
         else if even f then f else f + 1)"

definition floor_log2 :: "rat \<Rightarrow> int" where
  "floor_log2 a =
     (let k = bitlen (fst (quotient_of a)) - bitlen (snd (quotient_of a))
      in if a < 2 powi k then k - 1 else k)"

definition ulp_exponent :: "rat \<Rightarrow> int" where
  "ulp_exponent a = max (- 1074) (floor_log2 a - 52)"

definition round_double :: "rat \<Rightarrow> jsnum" where
  "round_double q =
     (if q = 0 then Fin 0
      else
        let e = ulp_exponent \<bar>q\<bar>;
            x = of_int (round_half_even (\<bar>q\<bar> / 2 powi e)) * 2 powi e
        in if 2 powi 1024 \<le> x then (if q < 0 then NInf else PInf)
           else Fin (if q < 0 then - x else x))"

text \<open>Multiplication.\<close>

fun num_mul :: "jsnum \<Rightarrow> jsnum \<Rightarrow> jsnum" where
  "num_mul (Fin a) (Fin b) = round_double (a * b)"
| "num_mul a b =
     (case (num_sgn a, num_sgn b) of
        (Some s, Some t) \<Rightarrow> inf_of_sign (s * t)
      | _ \<Rightarrow> NaN)"

text \<open>Division; a zero divisor counts as \<open>+0\<close>.\<close>

fun num_div :: "jsnum \<Rightarrow> jsnum \<Rightarrow> jsnum" where
  "num_div (Fin a) (Fin b) =
     (if b = 0 then inf_of_sign (if a < 0 then - 1 else if a = 0 then 0 else 1)
      else round_double (a / b))"
| "num_div NaN _ = NaN"
| "num_div _ NaN = NaN"
| "num_div (Fin a) _ = Fin 0"
| "num_div a (Fin b) =
     (case num_sgn a of
        Some s \<Rightarrow> inf_of_sign (if b < 0 then - s else s)
      | None \<Rightarrow> NaN)"
| "num_div _ _ = NaN"

text \<open>The relational operators on numbers; every comparison with \<open>NaN\<close> is false.\<close>

fun num_less :: "jsnum \<Rightarrow> jsnum \<Rightarrow> bool" where
  "num_less (Fin a) (Fin b) = (a < b)"
| "num_less NaN _ = False"
| "num_less _ NaN = False"
| "num_less NInf NInf = False"
| "num_less NInf _ = True"
| "num_less _ NInf = False"
| "num_less PInf _ = False"
| "num_less _ PInf = True"

definition num_gt :: "jsnum \<Rightarrow> jsnum \<Rightarrow> bool" where
  "num_gt a b = num_less b a"

text \<open>Strict equality \<open>===\<close> of two numbers.\<close>

definition num_strict_eq :: "jsnum \<Rightarrow> jsnum \<Rightarrow> bool" where
  "num_strict_eq a b = (a \<noteq> NaN \<and> a = b)"

section \<open>Strings\<close>

text \<open>
  Strings are lists of characters. The whitespace of \<open>trim\<close>, of the regular
  expression class \<open>\\s\<close> and of numeric conversion is the ASCII part of
  JavaScript's: tab, line feed, vertical tab, form feed, carriage return and space.
\<close>

definition is_ws :: "char \<Rightarrow> bool" where
  "is_ws c = (let n = (of_char c :: nat) in (9 \<le> n \<and> n \<le> 13) \<or> n = 32)"

definition js_trim :: "string \<Rightarrow> string" where
  "js_trim s = rev (dropWhile is_ws (rev (dropWhile is_ws s)))"

definition is_digit :: "char \<Rightarrow> bool" where
  "is_digit c = (let n = (of_char c :: nat) in 48 \<le> n \<and> n \<le> 57)"

definition is_upper :: "char \<Rightarrow> bool" where
  "is_upper c = (let n = (of_char c :: nat) in 65 \<le> n \<and> n \<le> 90)"

definition is_lower :: "char \<Rightarrow> bool" where
  "is_lower c = (let n = (of_char c :: nat) in 97 \<le> n \<and> n \<le> 122)"

definition to_lower :: "char \<Rightarrow> char" where
  "to_lower c = (if is_upper c then char_of ((of_char c :: nat) + 32) else c)"

definition to_upper :: "char \<Rightarrow> char" where
  "to_upper c = (if is_lower c then char_of ((of_char c :: nat) - 32) else c)"

text \<open>\<^verbatim>\<open>s.toLowerCase()\<close>\<close>

definition toLowerCase :: "string \<Rightarrow> string" where
  "toLowerCase s = map to_lower s"

text \<open>\<^verbatim>\<open>s.charAt(0).toUpperCase() + s.slice(1)\<close>\<close>

definition capitalize :: "string \<Rightarrow> string" where
  "capitalize s = (case s of [] \<Rightarrow> [] | c # cs \<Rightarrow> to_upper c # cs)"

text \<open>\<^verbatim>\<open>s.replace(/\\s+/g, ' ')\<close>: every maximal run of whitespace becomes one space.
  The flag says that the previous character belonged to a run.\<close>

fun collapse_from :: "bool \<Rightarrow> string \<Rightarrow> string" where
  "collapse_from in_run [] = []"
| "collapse_from in_run (c # cs) =
     (if is_ws c then (if in_run then collapse_from True cs
                       else CHR '' '' # collapse_from True cs)
      else c # collapse_from False cs)"

definition collapse_ws :: "string \<Rightarrow> string" where
  "collapse_ws s = collapse_from False s"

text \<open>\<^verbatim>\<open>s.replace(/([A-Z])/g, ' $1')\<close>: a space before every capital letter.\<close>

definition space_capitals :: "string \<Rightarrow> string" where
  "space_capitals s = concat (map (\<lambda>c. if is_upper c then [CHR '' '', c] else [c]) s)"

text \<open>\<^verbatim>\<open>s.replace('-', ' ')\<close>: a string pattern replaces the first occurrence only.\<close>

fun dash_to_space :: "string \<Rightarrow> string" where
  "dash_to_space [] = []"
| "dash_to_space (c # cs) = (if c = CHR ''-'' then CHR '' '' # cs else c # dash_to_space cs)"

subsection \<open>Decimal digits\<close>

definition digit_val :: "char \<Rightarrow> nat" where
  "digit_val c = (of_char c :: nat) - 48"

definition dec_val :: "string \<Rightarrow> nat" where
  "dec_val s = foldl (\<lambda>a c. 10 * a + digit_val c) 0 s"

fun show_nat :: "nat \<Rightarrow> string" where
  "show_nat n = (if n < 10 then [char_of (48 + n)]
                 else show_nat (n div 10) @ [char_of (48 + n mod 10)])"

declare show_nat.simps [simp del]

subsection \<open>String to number\<close>

text \<open>
  \<^verbatim>\<open>Number(s)\<close> on a string: surrounding whitespace is dropped; the empty string is 0;
  a signed decimal literal (digits, fraction, exponent, or \<open>Infinity\<close>) or an unsigned
  hexadecimal, octal or binary integer literal gives its value; anything else is \<open>NaN\<close>.
  The value is the exact one.
\<close>

definition hex_val :: "char \<Rightarrow> nat option" where
  "hex_val c = (let n = (of_char c :: nat) in
     if 48 \<le> n \<and> n \<le> 57 then Some (n - 48)
     else if 97 \<le> n \<and> n \<le> 102 then Some (n - 87)
     else if 65 \<le> n \<and> n \<le> 70 then Some (n - 55)
     else None)"

definition radix_val :: "nat \<Rightarrow> string \<Rightarrow> jsnum" where
  "radix_val b ds =
     (if ds \<noteq> [] \<and> (\<forall>c \<in> set ds. case hex_val c of None \<Rightarrow> False | Some d \<Rightarrow> d < b)
      then Fin (of_nat (foldl (\<lambda>a c. b * a + the (hex_val c)) 0 ds))
      else NaN)"

definition scale10 :: "nat \<Rightarrow> int \<Rightarrow> rat" where
  "scale10 m e = (if 0 \<le> e then of_nat m * 10 ^ nat e else of_nat m / 10 ^ nat (- e))"

text \<open>The exponent part of a decimal literal: absent, or \<open>e\<close>, an optional sign and digits.\<close>

definition exponent_part :: "string \<Rightarrow> int option" where
  "exponent_part s =
     (case s of
        [] \<Rightarrow> Some 0
      | c # t \<Rightarrow>
          if c = CHR ''e'' \<or> c = CHR ''E'' then
            (case t of
               [] \<Rightarrow> None
             | d # u \<Rightarrow>
                 if d = CHR ''-'' then
                   (if u \<noteq> [] \<and> list_all is_digit u then Some (- int (dec_val u)) else None)
                 else if d = CHR ''+'' then
                   (if u \<noteq> [] \<and> list_all is_digit u then Some (int (dec_val u)) else None)
                 else (if list_all is_digit t then Some (int (dec_val t)) else None))
          else None)"

definition unsigned_decimal :: "string \<Rightarrow> jsnum" where
  "unsigned_decimal s =
     (if s = ''Infinity'' then PInf
      else
        let ip = takeWhile is_digit s;
            r1 = dropWhile is_digit s;
            has_dot = (r1 \<noteq> [] \<and> hd r1 = CHR ''.'');
            fp = (if has_dot then takeWhile is_digit (tl r1) else []);
            r2 = (if has_dot then dropWhile is_digit (tl r1) else r1)
        in if ip = [] \<and> fp = [] then NaN
           else (case exponent_part r2 of
                   None \<Rightarrow> NaN
                 | Some e \<Rightarrow> Fin (scale10 (dec_val (ip @ fp)) (e - int (length fp)))))"

definition string_to_number :: "string \<Rightarrow> jsnum" where
  "string_to_number s =
     (let t = js_trim s in
      case t of
        [] \<Rightarrow> Fin 0
      | c # u \<Rightarrow>
          if c = CHR ''-'' then js_neg (unsigned_decimal u)
          else if c = CHR ''+'' then unsigned_decimal u
          else if c = CHR ''0'' \<and> u \<noteq> [] \<and> (hd u = CHR ''x'' \<or> hd u = CHR ''X'')
            then radix_val 16 (tl u)
          else if c = CHR ''0'' \<and> u \<noteq> [] \<and> (hd u = CHR ''o'' \<or> hd u = CHR ''O'')
            then radix_val 8 (tl u)
          else if c = CHR ''0'' \<and> u \<noteq> [] \<and> (hd u = CHR ''b'' \<or> hd u = CHR ''B'')
            then radix_val 2 (tl u)
          else unsigned_decimal t)"

text \<open>\<^verbatim>\<open>Number(v)\<close>\<close>

fun toNumber :: "jsval \<Rightarrow> jsnum" where
  "toNumber Undefined = NaN"
| "toNumber Null = Fin 0"
| "toNumber (Bool b) = Fin (if b then 1 else 0)"
| "toNumber (Num n) = n"
| "toNumber (Str s) = string_to_number s"

text \<open>\<^verbatim>\<open>isNaN(n)\<close>\<close>

definition isNaN :: "jsnum \<Rightarrow> bool" where
  "isNaN n = (n = NaN)"

subsection \<open>Number to string\<close>

text \<open>
  \<^verbatim>\<open>String(n)\<close> prints the digits of the exact decimal value: plain notation while
  the decimal point lies within 21 digits to the right and 6 to the left, exponent
  notation beyond. Every double is a finite decimal, and the number of its decimal
  places is below four times the number of digits of its denominator, which bounds the
  search for it. For a value that is not a finite decimal, which no operation of the
  pages produces, the digits stop where the search does.
\<close>

definition is_int :: "rat \<Rightarrow> bool" where
  "is_int q = (of_int \<lfloor>q\<rfloor> = q)"

fun dec_places :: "nat \<Rightarrow> rat \<Rightarrow> nat \<Rightarrow> nat" where
  "dec_places 0 q e = e"
| "dec_places (Suc fuel) q e = (if is_int q then e else dec_places fuel (q * 10) (Suc e))"

fun strip_zeros :: "nat \<Rightarrow> nat \<Rightarrow> nat \<times> nat" where
  "strip_zeros m z =
     (if m \<noteq> 0 \<and> m mod 10 = 0 then strip_zeros (m div 10) (Suc z) else (m, z))"

declare strip_zeros.simps [simp del]

definition pos_to_string :: "rat \<Rightarrow> string" where
  "pos_to_string q =
     (let e = dec_places (4 * length (show_nat (nat (snd (quotient_of q))))) q 0;
          m = nat \<lfloor>q * 10 ^ e + 1 / 2\<rfloor>;
          ds = show_nat (fst (strip_zeros m 0));
          k = int (length ds);
          n = k + int (snd (strip_zeros m 0)) - int e
      in if k \<le> n \<and> n \<le> 21 then ds @ replicate (nat (n - k)) (CHR ''0'')
         else if 0 < n \<and> n \<le> 21 then take (nat n) ds @ ''.'' @ drop (nat n) ds
         else if - 6 < n \<and> n \<le> 0 then ''0.'' @ replicate (nat (- n)) (CHR ''0'') @ ds
         else (if k = 1 then ds else take 1 ds @ ''.'' @ drop 1 ds)
              @ ''e'' @ (if n - 1 < 0 then ''-'' else ''+'') @ show_nat (nat \<bar>n - 1\<bar>))"

fun number_to_string :: "jsnum \<Rightarrow> string" where
  "number_to_string NaN = ''NaN''"
| "number_to_string PInf = ''Infinity''"
| "number_to_string NInf = ''-Infinity''"
| "number_to_string (Fin q) =
     (if q = 0 then ''0'' else if q < 0 then ''-'' @ pos_to_string (- q) else pos_to_string q)"

text \<open>
  \<^verbatim>\<open>n.toFixed(1)\<close>: a value that is not finite prints as \<open>String\<close> does; otherwise the
  sign is split off; from \<open>10^21\<close> on the magnitude prints as \<open>String\<close> does; below, the
  integer \<open>n\<close> with \<open>n / 10\<close> nearest to the magnitude is taken (the larger one of two),
  and its digits are printed with a point before the last one.
\<close>

definition tenths :: "rat \<Rightarrow> nat" where
  "tenths a = nat \<lfloor>a * 10 + 1 / 2\<rfloor>"

definition toFixed1 :: "jsnum \<Rightarrow> string" where
  "toFixed1 x =
     (case x of
        Fin q \<Rightarrow>
          (let s = (if q < 0 then ''-'' else []);
               a = \<bar>q\<bar>
           in if 10 ^ 21 \<le> a then s @ number_to_string (Fin a)
              else
                let m = show_nat (tenths a);
                    m' = (if length m \<le> 1 then replicate (2 - length m) (CHR ''0'') @ m else m)
                in s @ take (length m' - 1) m' @ ''.'' @ drop (length m' - 1) m')
      | _ \<Rightarrow> number_to_string x)"

text \<open>\<^verbatim>\<open>String(v)\<close>\<close>

fun js_to_string :: "jsval \<Rightarrow> string" where
  "js_to_string Undefined = ''undefined''"
| "js_to_string Null = ''null''"
| "js_to_string (Bool b) = (if b then ''true'' else ''false'')"
| "js_to_string (Num n) = number_to_string n"
| "js_to_string (Str s) = s"

text \<open>The operator \<open>+\<close>: concatenation as soon as one operand is a string.\<close>

fun is_string :: "jsval \<Rightarrow> bool" where
  "is_string (Str s) = True"
| "is_string _ = False"

definition js_add :: "jsval \<Rightarrow> jsval \<Rightarrow> jsval" where
  "js_add a b =
     (if is_string a \<or> is_string b then Str (js_to_string a @ js_to_string b)
      else Num (num_add (toNumber a) (toNumber b)))"

section \<open>The document store\<close>

text \<open>
  \<^verbatim>\<open>services/emigrantsService\<close> passes each call through to one collection of the cloud
  store: \<open>addDoc\<close>, \<open>getDocs\<close>, \<open>updateDoc\<close>, \<open>deleteDoc\<close>. A page talks to one
  collection, which is the list of its documents with their ids. The store assigns the
  ids; here they are numbered. Any call can be rejected (network, permissions): the list
  \<open>faults\<close> says for the coming calls, in order, which ones are; calls beyond its end
  succeed. Every call made is logged in \<open>calls\<close>.
\<close>

datatype call = AddDoc obj | GetDocs | UpdateDoc string obj | DeleteDoc string

datatype store_error = Rejected | NotFound

record store =
  docs :: "(string \<times> obj) list"
  fresh :: nat
  faults :: "bool list"
  calls :: "call list"

definition next_fault :: "store \<Rightarrow> bool" where
  "next_fault s = (case faults s of [] \<Rightarrow> False | b # _ \<Rightarrow> b)"

definition called :: "call \<Rightarrow> store \<Rightarrow> store" where
  "called c s = s\<lparr>faults := tl (faults s), calls := calls s @ [c]\<rparr>"

definition auto_id :: "nat \<Rightarrow> string" where
  "auto_id n = ''doc'' @ show_nat n"

text \<open>\<^verbatim>\<open>{ ...a, ...b }\<close>\<close>

definition spread :: "obj \<Rightarrow> obj \<Rightarrow> obj" where
  "spread a b = foldl (\<lambda>ob (k, v). obj_set ob k v) a b"

text \<open>\<^verbatim>\<open>addEmigrant(data)\<close> and its five siblings\<close>

definition addDoc :: "obj \<Rightarrow> store \<Rightarrow> (store_error + unit) \<times> store" where
  "addDoc d s =
     (let s1 = called (AddDoc d) s in
      if next_fault s then (Inl Rejected, s1)
      else (Inr (), s1\<lparr>docs := docs s1 @ [(auto_id (fresh s1), d)], fresh := Suc (fresh s1)\<rparr>))"

text \<open>\<^verbatim>\<open>getEmigrants()\<close>: every document as \<^verbatim>\<open>{ id: doc.id, ...doc.data() }\<close>\<close>

definition getDocs :: "store \<Rightarrow> (store_error + obj list) \<times> store" where
  "getDocs s =
     (let s1 = called GetDocs s in
      if next_fault s then (Inl Rejected, s1)
      else (Inr (map (\<lambda>(i, d). spread [(''id'', Str i)] d) (docs s1)), s1))"

text \<open>\<^verbatim>\<open>updateEmigrant(id, data)\<close>: \<open>updateDoc\<close> writes the given fields into the
  document and keeps its other fields; it fails when there is no such document.\<close>

definition updateDoc :: "string \<Rightarrow> obj \<Rightarrow> store \<Rightarrow> (store_error + unit) \<times> store" where
  "updateDoc i d s =
     (let s1 = called (UpdateDoc i d) s in
      if next_fault s then (Inl Rejected, s1)
      else if i \<notin> set (map fst (docs s)) then (Inl NotFound, s1)
      else (Inr (), s1\<lparr>docs := map (\<lambda>(j, old). if j = i then (j, spread old d) else (j, old))
                                   (docs s1)\<rparr>))"

text \<open>\<^verbatim>\<open>deleteEmigrant(id)\<close>\<close>

definition deleteDoc :: "string \<Rightarrow> store \<Rightarrow> (store_error + unit) \<times> store" where
  "deleteDoc i s =
     (let s1 = called (DeleteDoc i) s in
      if next_fault s then (Inl Rejected, s1)
      else (Inr (), s1\<lparr>docs := filter (\<lambda>(j, d). j \<noteq> i) (docs s1)\<rparr>))"

section \<open>The dashboard pages\<close>

text \<open>
  Six pages repeat one design over six collections: civil status (\<open>BarChartPage\<close>), age
  (\<open>DensityPlotPage\<close>), occupation (\<open>TreemapPage\<close>), education (\<open>HorizontalChartPage\<close>),
  destination country (\<open>FlowMapPage\<close>) and sex (\<open>LineChartPage\<close>). What differs from page
  to page is written out per page below; the rest is shared.
\<close>

datatype page = Civil | Age | Occupation | Education | Country | Sex

definition civilStatusFields :: "string list" where
  "civilStatusFields =
     [''single'', ''married'', ''widower'', ''separated'', ''divorced'', ''notReported'']"

definition ageGroups :: "string list" where
  "ageGroups =
     [''14-Below'', ''15-19'', ''20-24'', ''25-29'', ''30-34'', ''35-39'', ''40-44'',
      ''45-49'', ''50-54'', ''55-59'', ''60-64'', ''65-69'', ''70-above'']"

definition occuFields :: "string list" where
  "occuFields =
     [''Professional'', ''Managerial'', ''Clerical'', ''Sales'', ''Service'', ''Agriculture'',
      ''Production'', ''Armed Forces'', ''Housewives'', ''Retirees'', ''Students'', ''Minors'',
      ''Out of School Youth'', ''No Occupation Reported'']"

definition eduFieldMappings :: "(string \<times> string) list" where
  "eduFieldMappings =
     [(''Not of Schooling Age'', ''notOfSchoolingAge''),
      (''No Formal Education'', ''noFormalEducation''),
      (''Elementary Level'', ''elementaryLevel''),
      (''Elementary Graduate'', ''elementaryGraduate''),
      (''High School Level'', ''highSchoolLevel''),
      (''High School Graduate'', ''highSchoolGraduate''),
      (''Vocational Level'', ''vocationalLevel''),
      (''Vocational Graduate'', ''vocationalGraduate''),
      (''College Level'', ''collegeLevel''),
      (''College Graduate'', ''collegeGraduate''),
      (''Post Graduate Level'', ''postGraduateLevel''),
      (''Post Graduate'', ''postGraduate''),
      (''Non-Formal Education'', ''nonFormalEducation''),
      (''Not Reported / No Response'', ''notReportedNoResponse'')]"

definition eduDisplayNames :: "string list" where
  "eduDisplayNames = map fst eduFieldMappings"

definition countries :: "string list" where
  "countries =
     [''USA'', ''CANADA'', ''JAPAN'', ''AUSTRALIA'', ''ITALY'', ''NEW ZEALAND'',
      ''UNITED KINGDOM'', ''GERMANY'', ''SOUTH KOREA'', ''SPAIN'', ''OTHERS'']"

definition sexFields :: "string list" where
  "sexFields = [''male'', ''female'']"

text \<open>The categories a page iterates over (for education, the display names).\<close>

fun page_fields :: "page \<Rightarrow> string list" where
  "page_fields Civil = civilStatusFields"
| "page_fields Age = ageGroups"
| "page_fields Occupation = occuFields"
| "page_fields Education = eduDisplayNames"
| "page_fields Country = countries"
| "page_fields Sex = sexFields"

text \<open>The name under which a category is stored: on the education page the
  \<open>safeField\<close> of the display name, elsewhere the category itself.\<close>

definition stored_key :: "page \<Rightarrow> string \<Rightarrow> string" where
  "stored_key p f =
     (if p = Education then (case map_of eduFieldMappings f of Some k \<Rightarrow> k | None \<Rightarrow> f) else f)"

subsection \<open>The importer\<close>

text \<open>
  The parser hands \<open>complete\<close> its results: the rows as objects keyed by header, each cell
  a string, and the list of parse errors.
\<close>

datatype parse_error = TooFewFields nat | TooManyFields nat | OtherParseError string

record parse_results =
  data :: "obj list"
  errors :: "parse_error list"

text \<open>The \<open>filter\<close> that keeps the valid rows.\<close>

fun row_valid :: "page \<Rightarrow> obj \<Rightarrow> bool" where
  "row_valid Civil row =
     (truthy (obj_get row ''year'') \<and> \<not> isNaN (toNumber (obj_get row ''year'')))"
| "row_valid Age row =
     (truthy (obj_get row ''year'') \<and> \<not> isNaN (toNumber (obj_get row ''year'')))"
| "row_valid Sex row =
     (truthy (obj_get row ''year'') \<and> \<not> isNaN (toNumber (obj_get row ''year'')))"
| "row_valid Occupation row = truthy (js_or (obj_get row ''year'') (obj_get row ''Year''))"
| "row_valid Education row = truthy (js_or (obj_get row ''year'') (obj_get row ''Year''))"
| "row_valid Country row =
     truthy (js_or (js_or (obj_get row ''year'') (obj_get row ''Year'')) (obj_get row ''YEAR''))"

text \<open>The \<open>year\<close> of the record made from a row.\<close>

fun row_year :: "page \<Rightarrow> obj \<Rightarrow> jsval" where
  "row_year Civil row = Num (toNumber (obj_get row ''year''))"
| "row_year Age row = Num (toNumber (obj_get row ''year''))"
| "row_year Sex row = Num (toNumber (obj_get row ''year''))"
| "row_year Occupation row =
     js_or (Num (toNumber (js_or (obj_get row ''year'') (obj_get row ''Year'')))) (Num (Fin 0))"
| "row_year Education row =
     js_or (Num (toNumber (js_or (obj_get row ''year'') (obj_get row ''Year'')))) (Num (Fin 0))"
| "row_year Country row =
     js_or (Num (toNumber (js_or (js_or (obj_get row ''year'') (obj_get row ''Year''))
                                 (obj_get row ''YEAR''))))
           (Num (Fin 0))"

text \<open>The header names under which a page looks for a category, in the order tried.\<close>

fun header_variants :: "page \<Rightarrow> string \<Rightarrow> string list" where
  "header_variants Civil f = [f, capitalize f, js_trim (space_capitals f)]"
| "header_variants Age f = [f, dash_to_space f, toLowerCase f]"
| "header_variants Sex f = [f, capitalize f]"
| "header_variants Occupation f = [f, toLowerCase f, toLowerCase (collapse_ws f)]"
| "header_variants Country f = [f, toLowerCase f, toLowerCase (collapse_ws f)]"
| "header_variants Education f =
     [f, stored_key Education f, toLowerCase f, toLowerCase (stored_key Education f)]"

text \<open>\<^verbatim>\<open>row[h1] || row[h2] || ... || 0\<close>\<close>

fun first_truthy :: "obj \<Rightarrow> string list \<Rightarrow> jsval" where
  "first_truthy row [] = Num (Fin 0)"
| "first_truthy row (h # hs) = js_or (obj_get row h) (first_truthy row hs)"

text \<open>\<^verbatim>\<open>Number(value) || 0\<close>\<close>

definition number_or_zero :: "jsval \<Rightarrow> jsval" where
  "number_or_zero v = js_or (Num (toNumber v)) (Num (Fin 0))"

definition resolve :: "page \<Rightarrow> obj \<Rightarrow> string \<Rightarrow> jsval" where
  "resolve p row f = number_or_zero (first_truthy row (header_variants p f))"

text \<open>The body of the \<open>map\<close>: one record per row.\<close>

definition row_to_record :: "page \<Rightarrow> obj \<Rightarrow> obj" where
  "row_to_record p row =
     foldl (\<lambda>record f. obj_set record (stored_key p f) (resolve p row f))
           [(''year'', row_year p row)] (page_fields p)"

definition import_records :: "page \<Rightarrow> obj list \<Rightarrow> obj list" where
  "import_records p rows = map (row_to_record p) (filter (row_valid p) rows)"

text \<open>\<^verbatim>\<open>for (const record of records) await addEmigrant(record)\<close>: the first rejected call
  ends the loop, as the exception does.\<close>

fun add_all :: "obj list \<Rightarrow> store \<Rightarrow> (store_error + unit) \<times> store" where
  "add_all [] s = (Inr (), s)"
| "add_all (r # rs) s =
     (case addDoc r s of
        (Inl e, s') \<Rightarrow> (Inl e, s')
      | (Inr u, s') \<Rightarrow> add_all rs s')"

subsection \<open>Page state\<close>

text \<open>The state of a page component, with the collection it talks to. The text of a
  message is kept without its leading pictograph, and without the full stop that the
  destination page puts after three of its error texts.\<close>

record page_state =
  records :: "obj list"
  selectedYear :: string
  editingId :: jsval
  editForm :: obj
  form :: obj
  csvFileName :: string
  message :: "string \<times> string"
  loading :: bool
  backend :: store

definition showMessage :: "string \<Rightarrow> string \<Rightarrow> page_state \<Rightarrow> page_state" where
  "showMessage text type st = st\<lparr>message := (text, type)\<rparr>"

definition fetchData :: "page_state \<Rightarrow> page_state" where
  "fetchData st =
     (case getDocs (backend st) of
        (Inr fetched, s) \<Rightarrow> st\<lparr>records := fetched, loading := False, backend := s\<rparr>
      | (Inl e, s) \<Rightarrow>
          (showMessage ''Error fetching data'' ''error'' st)\<lparr>loading := False, backend := s\<rparr>)"

text \<open>The \<open>complete\<close> callback of \<open>handleCSVUpload\<close>.\<close>

definition complete :: "page \<Rightarrow> parse_results \<Rightarrow> page_state \<Rightarrow> page_state" where
  "complete p results st =
     (if length (errors results) > 0 then
        (showMessage ''Error parsing CSV file'' ''error'' st)\<lparr>csvFileName := []\<rparr>
      else
        let recs = import_records p (data results) in
        case add_all recs (backend st) of
          (Inl e, s) \<Rightarrow>
            (showMessage ''Error processing CSV data'' ''error'' (st\<lparr>backend := s\<rparr>))
              \<lparr>csvFileName := []\<rparr>
        | (Inr u, s) \<Rightarrow>
            (fetchData
               (showMessage (show_nat (length recs) @ '' records uploaded successfully!'')
                  ''success'' (st\<lparr>backend := s\<rparr>)))
              \<lparr>csvFileName := []\<rparr>)"

subsection \<open>The CSV parser\<close>

text \<open>
  \<open>Papa.parse\<close> is a library. Its part here is what the call
  \<^verbatim>\<open>Papa.parse(file, { header: true, skipEmptyLines: true, complete, error })\<close> gives for
  comma-delimited text without quotes, lines ending in a line feed: the lines that are
  not empty are split at the commas; the first is the header; each further line becomes
  an object with one string per header name, in the order of the cells; a line with
  more or fewer cells than the header is reported in \<open>errors\<close> as a field mismatch
  (\<open>TooManyFields\<close>, \<open>TooFewFields\<close>) with its row number. The surplus cells, which the
  library collects under \<open>__parsed_extra\<close>, are left out of the row object.
\<close>

fun split_on :: "char \<Rightarrow> string \<Rightarrow> string list" where
  "split_on c [] = [[]]"
| "split_on c (x # xs) =
     (if x = c then [] # split_on c xs
      else (case split_on c xs of [] \<Rightarrow> [[x]] | r # rs \<Rightarrow> (x # r) # rs))"

definition papa_rows :: "string \<Rightarrow> string list list" where
  "papa_rows text =
     filter (\<lambda>cells. cells \<noteq> [[]]) (map (split_on (CHR '','')) (split_on (CHR 0x0A) text))"

definition row_object :: "string list \<Rightarrow> string list \<Rightarrow> obj" where
  "row_object header cells = foldl (\<lambda>row (h, c). obj_set row h (Str c)) [] (zip header cells)"

definition field_mismatch :: "nat \<Rightarrow> nat \<times> string list \<Rightarrow> parse_error list" where
  "field_mismatch expected numbered =
     (if length (snd numbered) > expected then [TooManyFields (fst numbered)]
      else if length (snd numbered) < expected then [TooFewFields (fst numbered)]
      else [])"

definition papa_parse :: "string \<Rightarrow> parse_results" where
  "papa_parse text =
     (case papa_rows text of
        [] \<Rightarrow> \<lparr>data = [], errors = []\<rparr>
      | header # rows \<Rightarrow>
          \<lparr>data = map (row_object header) rows,
           errors = concat (map (field_mismatch (length header)) (zip [0..<length rows] rows))\<rparr>)"

text \<open>\<open>handleCSVUpload\<close>: the chosen file, if any, must be named \<open>*.csv\<close>; its text is
  parsed and handed to \<open>complete\<close>. (The \<open>error\<close> callback, for a file that cannot be
  read, is left out.)\<close>

record csv_file =
  file_name :: string
  file_text :: string

definition endsWith :: "string \<Rightarrow> string \<Rightarrow> bool" where
  "endsWith s suffix = (length suffix \<le> length s \<and> drop (length s - length suffix) s = suffix)"

definition handleCSVUpload :: "page \<Rightarrow> csv_file option \<Rightarrow> page_state \<Rightarrow> page_state" where
  "handleCSVUpload p file st =
     (case file of
        None \<Rightarrow> st\<lparr>csvFileName := []\<rparr>
      | Some f \<Rightarrow>
          if \<not> endsWith (toLowerCase (file_name f)) ''.csv''
          then showMessage ''Please select a CSV file'' ''error'' st
          else complete p (papa_parse (file_text f)) (st\<lparr>csvFileName := file_name f\<rparr>))"

subsection \<open>The aggregator\<close>

text \<open>\<^verbatim>\<open>Array.from(new Set(xs))\<close>: the values in the order of their first occurrence.
  The values are primitive, so the set's comparison is equality.\<close>

definition set_add :: "jsval list \<Rightarrow> jsval \<Rightarrow> jsval list" where
  "set_add acc x = (if x \<in> set acc then acc else acc @ [x])"

definition array_from_set :: "jsval list \<Rightarrow> jsval list" where
  "array_from_set xs = foldl set_add [] xs"

text \<open>\<^verbatim>\<open>xs.sort(cmp)\<close>: the sort is stable and, for a comparison that is a consistent
  order, gives the one sorted result whatever the engine's algorithm; it is written as
  an insertion sort. \<open>y\<close> goes after \<open>x\<close> when \<open>cmp(y, x) > 0\<close>.\<close>

fun insert_sorted :: "(jsnum \<Rightarrow> jsnum \<Rightarrow> jsnum) \<Rightarrow> jsnum \<Rightarrow> jsnum list \<Rightarrow> jsnum list" where
  "insert_sorted cmp x [] = [x]"
| "insert_sorted cmp x (y # ys) =
     (if num_gt (cmp y x) (Fin 0) then x # y # ys else y # insert_sorted cmp x ys)"

definition array_sort :: "(jsnum \<Rightarrow> jsnum \<Rightarrow> jsnum) \<Rightarrow> jsnum list \<Rightarrow> jsnum list" where
  "array_sort cmp xs = foldl (\<lambda>acc x. insert_sorted cmp x acc) [] xs"

text \<open>
  \<^verbatim>\<open>Array.from(new Set(records.map((r) => r.year).filter(Boolean))).map(Number)\<close>,
  sorted with \<^verbatim>\<open>(a, b) => a - b\<close>
\<close>

definition years :: "obj list \<Rightarrow> jsnum list" where
  "years recs =
     array_sort (\<lambda>a b. num_sub a b)
       (map toNumber (array_from_set (filter truthy (map (\<lambda>r. obj_get r ''year'') recs))))"

definition filteredRecords :: "obj list \<Rightarrow> string \<Rightarrow> obj list" where
  "filteredRecords recs selected =
     (if selected = ''All'' then recs
      else filter (\<lambda>r. num_strict_eq (toNumber (obj_get r ''year'')) (toNumber (Str selected)))
             recs)"

text \<open>\<open>totals\<close> of the civil status page\<close>

definition totals :: "obj list \<Rightarrow> string \<Rightarrow> obj" where
  "totals recs selected =
     foldl (\<lambda>acc cur.
              foldl (\<lambda>a field.
                       obj_set a field
                         (js_add (obj_get a field) (js_or (obj_get cur field) (Num (Fin 0)))))
                acc civilStatusFields)
       [(''single'', Num (Fin 0)), (''married'', Num (Fin 0)), (''widower'', Num (Fin 0)),
        (''separated'', Num (Fin 0)), (''divorced'', Num (Fin 0)),
        (''notReported'', Num (Fin 0))]
       (filteredRecords recs selected)"

text \<open>The destination page: \<^verbatim>\<open>reduce((sum, item) => sum + (item[country] || 0), 0)\<close>,
  \<open>totalEmigrants\<close>, and the \<open>percentage\<close> of the country summary table.\<close>

definition country_total :: "obj list \<Rightarrow> string \<Rightarrow> jsval" where
  "country_total filtered country =
     foldl (\<lambda>sum item. js_add sum (js_or (obj_get item country) (Num (Fin 0))))
       (Num (Fin 0)) filtered"

definition totalEmigrants :: "obj list \<Rightarrow> string \<Rightarrow> jsval" where
  "totalEmigrants recs selected =
     foldl (\<lambda>total country.
              js_add total (country_total (filteredRecords recs selected) country))
       (Num (Fin 0)) countries"

text \<open>\<open>v > 0\<close>, \<open>a / b\<close> and \<open>a * 100\<close> turn their operands into numbers.\<close>

definition percentage :: "obj list \<Rightarrow> string \<Rightarrow> string \<Rightarrow> jsval" where
  "percentage recs selected country =
     (let total = country_total (filteredRecords recs selected) country in
      if num_gt (toNumber (totalEmigrants recs selected)) (Fin 0)
      then Str (toFixed1
                  (num_mul (num_div (toNumber total) (toNumber (totalEmigrants recs selected)))
                     (Fin 100)))
      else Num (Fin 0))"

subsection \<open>The editable table and the add form\<close>

definition defaultForm :: "page \<Rightarrow> obj" where
  "defaultForm p = (''year'', Str []) # map (\<lambda>f. (f, Str [])) (page_fields p)"

text \<open>\<open>handleChange\<close>, \<open>handleEditChange\<close>: the input named \<open>name\<close> now holds \<open>v\<close>.\<close>

definition handleChange :: "string \<Rightarrow> string \<Rightarrow> page_state \<Rightarrow> page_state" where
  "handleChange name v st = st\<lparr>form := obj_set (form st) name (Str v)\<rparr>"

definition handleEditChange :: "string \<Rightarrow> string \<Rightarrow> page_state \<Rightarrow> page_state" where
  "handleEditChange name v st = st\<lparr>editForm := obj_set (editForm st) name (Str v)\<rparr>"

text \<open>\<open>getRecordFromForm\<close> (\<open>convertToSafeData\<close> on the education page; written in place
  on the civil status page)\<close>

definition getRecordFromForm :: "page \<Rightarrow> obj \<Rightarrow> obj" where
  "getRecordFromForm p sourceForm =
     foldl (\<lambda>record f. obj_set record (stored_key p f) (number_or_zero (obj_get sourceForm f)))
       [(''year'', Num (toNumber (obj_get sourceForm ''year'')))] (page_fields p)"

definition handleAdd :: "page \<Rightarrow> page_state \<Rightarrow> page_state" where
  "handleAdd p st =
     (if \<not> truthy (obj_get (form st) ''year'') then showMessage ''Year is required'' ''error'' st
      else
        case addDoc (getRecordFromForm p (form st)) (backend st) of
          (Inl e, s) \<Rightarrow> showMessage ''Error adding record'' ''error'' (st\<lparr>backend := s\<rparr>)
        | (Inr u, s) \<Rightarrow>
            showMessage ''Record added successfully!'' ''success''
              (fetchData (st\<lparr>form := defaultForm p, backend := s\<rparr>)))"

text \<open>\<open>handleEdit\<close>: the row's id is remembered and the edit form is filled with
  \<^verbatim>\<open>String(item[field] || "")\<close> for the year and every category.\<close>

definition handleEdit :: "page \<Rightarrow> obj \<Rightarrow> page_state \<Rightarrow> page_state" where
  "handleEdit p item st =
     st\<lparr>editingId := obj_get item ''id'',
        editForm :=
          foldl (\<lambda>formState f.
                   obj_set formState f
                     (Str (js_to_string (js_or (obj_get item (stored_key p f)) (Str [])))))
            [(''year'', Str (js_to_string (js_or (obj_get item ''year'') (Str []))))]
            (page_fields p)\<rparr>"

definition handleCancel :: "page_state \<Rightarrow> page_state" where
  "handleCancel st = st\<lparr>editingId := Null, editForm := []\<rparr>"

text \<open>\<open>handleSave\<close>. The education page checks the id and the year first, and words
  its error after the store's error code (of the codes, \<open>not-found\<close> is the one kept
  here).\<close>

definition save_checks :: "page \<Rightarrow> string \<Rightarrow> page_state \<Rightarrow> string option" where
  "save_checks p i st =
     (if p \<noteq> Education then None
      else if i = [] then Some ''Error: No record ID found''
      else if \<not> truthy (obj_get (editForm st) ''year'')
              \<or> isNaN (toNumber (obj_get (editForm st) ''year''))
        then Some ''Please enter a valid year''
      else None)"

definition save_error_text :: "page \<Rightarrow> store_error \<Rightarrow> string" where
  "save_error_text p e =
     (if p = Education \<and> e = NotFound then ''Record not found in database''
      else ''Error updating record'')"

definition handleSave :: "page \<Rightarrow> string \<Rightarrow> page_state \<Rightarrow> page_state" where
  "handleSave p i st =
     (case save_checks p i st of
        Some text \<Rightarrow> showMessage text ''error'' st
      | None \<Rightarrow>
          (case updateDoc i (getRecordFromForm p (editForm st)) (backend st) of
             (Inl e, s) \<Rightarrow> showMessage (save_error_text p e) ''error'' (st\<lparr>backend := s\<rparr>)
           | (Inr u, s) \<Rightarrow>
               showMessage ''Record updated successfully!'' ''success''
                 (fetchData (st\<lparr>editingId := Null, editForm := [], backend := s\<rparr>))))"

text \<open>A page as it is mounted (the initial values of its \<open>useState\<close> calls), on a
  given collection.\<close>

definition mounted :: "page \<Rightarrow> store \<Rightarrow> page_state" where
  "mounted p s =
     \<lparr>records = [], selectedYear = ''All'', editingId = Null, editForm = [],
      form = defaultForm p, csvFileName = [], message = ([], []), loading = False,
      backend = s\<rparr>"

definition empty_store :: store where
  "empty_store = \<lparr>docs = [], fresh = 0, faults = [], calls = []\<rparr>"

text \<open>Of the next \<open>n\<close> calls to the store, the number that succeed before the first
  rejected one.\<close>

fun survivors :: "nat \<Rightarrow> bool list \<Rightarrow> nat" where
  "survivors 0 fs = 0"
| "survivors (Suc n) [] = Suc n"
| "survivors (Suc n) (b # fs) = (if b then 0 else Suc (survivors n fs))"

text \<open>Two parsed rows, used as a running example: the years 2019 and 2020 of the civil
  status data, the second with an empty \<open>married\<close> cell.\<close>

definition example_rows :: "obj list" where
  "example_rows =
     [[(''year'', Str ''2019''), (''single'', Str ''100''), (''married'', Str ''50'')],
      [(''year'', Str ''2020''), (''single'', Str ''80''), (''married'', Str [])]]"

text \<open>A collection holding one civil status document, and the page on it with that
  document's row in edit mode, the text of the married input changed to 60.\<close>

definition one_doc_store :: store where
  "one_doc_store =
     \<lparr>docs = [(''doc0'', [(''year'', Num (Fin 2019)), (''single'', Num (Fin 100)),
                          (''married'', Num (Fin 50)), (''widower'', Num (Fin 0)),
                          (''separated'', Num (Fin 0)), (''divorced'', Num (Fin 0)),
                          (''notReported'', Num (Fin 0))])],
      fresh = 1, faults = [], calls = []\<rparr>"

definition editing_row :: page_state where
  "editing_row =
     (mounted Civil one_doc_store)
       \<lparr>editingId := Str ''doc0'',
        editForm := [(''year'', Str ''2019''), (''single'', Str ''100''), (''married'', Str ''60''),
                     (''widower'', Str []), (''separated'', Str []), (''divorced'', Str []),
                     (''notReported'', Str [])]\<rparr>"

text \<open>Four fetched records: two of the year 2020, one of 2019 and one of the year 0.\<close>

definition year_mix :: "obj list" where
  "year_mix =
     [[(''id'', Str ''doc0''), (''year'', Num (Fin 2020)), (''single'', Num (Fin 80))],
      [(''id'', Str ''doc1''), (''year'', Num (Fin 2019)), (''single'', Num (Fin 100))],
      [(''id'', Str ''doc2''), (''year'', Num (Fin 2020)), (''single'', Num (Fin 5))],
      [(''id'', Str ''doc3''), (''year'', Num (Fin 0)), (''single'', Num (Fin 7))]]"

subsection \<open>The aggregation as the specification words it\<close>

text \<open>
  The specification's totals, for comparison with the page's: \<open>total(category)\<close> is the
  sum of \<open>record[category]\<close> over the selected records, a missing field counting 0;
  \<open>grandTotal\<close> is the sum of the totals over all categories; \<open>percentage(category)\<close> is
  \<open>total(category) / grandTotal * 100\<close>, and 0 when \<open>grandTotal = 0\<close> (here before it is
  rounded to one decimal). The categories are the destination page's.
\<close>

definition count_of :: "obj \<Rightarrow> string \<Rightarrow> rat" where
  "count_of r c = (case obj_get r c of Num (Fin q) \<Rightarrow> q | _ \<Rightarrow> 0)"

definition spec_total :: "obj list \<Rightarrow> string \<Rightarrow> rat" where
  "spec_total selected_records c = sum_list (map (\<lambda>r. count_of r c) selected_records)"

definition spec_grandTotal :: "obj list \<Rightarrow> rat" where
  "spec_grandTotal selected_records = sum_list (map (spec_total selected_records) countries)"

definition spec_percentage :: "obj list \<Rightarrow> string \<Rightarrow> rat" where
  "spec_percentage selected_records c =
     (if spec_grandTotal selected_records = 0 then 0
      else spec_total selected_records c / spec_grandTotal selected_records * 100)"

text \<open>The sum of the magnitudes of the counts that the grand total adds up.\<close>

definition spec_magnitude :: "obj list \<Rightarrow> rat" where
  "spec_magnitude selected_records =
     sum_list (map (\<lambda>c. sum_list (map (\<lambda>r. \<bar>count_of r c\<bar>) selected_records)) countries)"

text \<open>Two records of the destination page, one with a negative count, and one with 23 of
  its 80 emigrants for the USA.\<close>

definition flow_records :: "obj list" where
  "flow_records =
     [[(''id'', Str ''doc0''), (''year'', Num (Fin 2019)), (''USA'', Num (Fin 100)),
       (''CANADA'', Num (Fin 50))],
      [(''id'', Str ''doc1''), (''year'', Num (Fin 2020)), (''USA'', Num (Fin 80)),
       (''CANADA'', Num (Fin 70))]]"

definition negative_record :: obj where
  "negative_record = [(''id'', Str ''doc0''), (''year'', Num (Fin 2020)), (''USA'', Num (Fin (- 5)))]"

definition share_record :: obj where
  "share_record =
     [(''id'', Str ''doc0''), (''year'', Num (Fin 2020)), (''USA'', Num (Fin 23)),
      (''CANADA'', Num (Fin 57))]"

subsection \<open>The end-to-end scenario\<close>

text \<open>The CSV text of the scenario as the specification gives it, whose last row ends
  in two commas, and the text with one comma there; the upload of such a text, as
  \<open>emigrants.csv\<close>, on a freshly mounted civil status page with an empty collection; and
  the two records expected.\<close>

definition spec_csv :: string where
  "spec_csv =
     ''year,single,married'' @ [CHR 0x0A] @ ''2019,100,50'' @ [CHR 0x0A] @ ''2020,80,,''"

definition amended_csv :: string where
  "amended_csv =
     ''year,single,married'' @ [CHR 0x0A] @ ''2019,100,50'' @ [CHR 0x0A] @ ''2020,80,''"

definition uploaded :: "string \<Rightarrow> page_state" where
  "uploaded text =
     handleCSVUpload Civil (Some \<lparr>file_name = ''emigrants.csv'', file_text = text\<rparr>)
       (mounted Civil empty_store)"

definition record_2019 :: obj where
  "record_2019 =
     [(''year'', Num (Fin 2019)), (''single'', Num (Fin 100)), (''married'', Num (Fin 50)),
      (''widower'', Num (Fin 0)), (''separated'', Num (Fin 0)), (''divorced'', Num (Fin 0)),
      (''notReported'', Num (Fin 0))]"

definition record_2020 :: obj where
  "record_2020 =
     [(''year'', Num (Fin 2020)), (''single'', Num (Fin 80)), (''married'', Num (Fin 0)),
      (''widower'', Num (Fin 0)), (''separated'', Num (Fin 0)), (''divorced'', Num (Fin 0)),
      (''notReported'', Num (Fin 0))]"

section \<open>Properties\<close>

subsection \<open>Objects\<close>

lemmas number_parse_defs =
  string_to_number_def js_trim_def is_ws_def unsigned_decimal_def is_digit_def
  exponent_part_def scale10_def dec_val_def digit_val_def

lemma truthy_js_or: "truthy (js_or a b) = (truthy a \<or> truthy b)"
  by (simp add: js_or_def)

lemma obj_get_Nil: "obj_get [] k = Undefined"
  by (simp add: obj_get_def)

lemma obj_get_Cons:
  "obj_get ((k, v) # ob) k' = (if k' = k then v else obj_get ob k')"
  by (simp add: obj_get_def)

lemma obj_get_set: "obj_get (obj_set ob k v) k' = (if k' = k then v else obj_get ob k')"
  by (simp add: obj_get_def obj_set_def update_conv')

lemma keys_obj_set:
  "map fst (obj_set ob k v) = (if k \<in> set (map fst ob) then map fst ob else map fst ob @ [k])"
  by (simp add: obj_set_def update_keys image_iff)

text \<open>A loop that sets one property per name of a list of distinct new names.\<close>

lemma keys_fill:
  "distinct (map key fs) \<Longrightarrow> set (map key fs) \<inter> set (map fst ob) = {} \<Longrightarrow>
   map fst (foldl (\<lambda>r f. obj_set r (key f) (val f)) ob fs) = map fst ob @ map key fs"
proof (induction fs arbitrary: ob)
  case Nil
  then show ?case by simp
next
  case (Cons f fs)
  from Cons.prems have new: "key f \<notin> set (map fst ob)" and d: "distinct (map key fs)"
    and rest: "key f \<notin> set (map key fs)" and disj: "set (map key fs) \<inter> set (map fst ob) = {}"
    by auto
  have "map fst (foldl (\<lambda>r f. obj_set r (key f) (val f)) (obj_set ob (key f) (val f)) fs)
        = map fst (obj_set ob (key f) (val f)) @ map key fs"
    using d rest disj new by (intro Cons.IH) (auto simp: keys_obj_set)
  then show ?case using new by (simp add: keys_obj_set)
qed

lemma get_fill_other:
  "k \<notin> key ` set fs \<Longrightarrow>
   obj_get (foldl (\<lambda>r f. obj_set r (key f) (val f)) ob fs) k = obj_get ob k"
  by (induction fs arbitrary: ob) (auto simp: obj_get_set)

lemma get_fill_member:
  "f \<in> set fs \<Longrightarrow> inj_on key (set fs) \<Longrightarrow>
   obj_get (foldl (\<lambda>r f. obj_set r (key f) (val f)) ob fs) (key f) = val f"
proof (induction fs arbitrary: ob)
  case Nil
  then show ?case by simp
next
  case (Cons g fs)
  show ?case
  proof (cases "f \<in> set fs")
    case True
    then show ?thesis using Cons by (auto simp: inj_on_def)
  next
    case False
    with Cons.prems have fg: "g = f" by simp
    from False Cons.prems(2) have "key f \<notin> key ` set fs"
      by (auto simp: inj_on_def fg)
    then show ?thesis by (simp add: fg get_fill_other obj_get_set)
  qed
qed

subsection \<open>The record shapes\<close>

lemma stored_key_plain: "p \<noteq> Education \<Longrightarrow> stored_key p f = f"
  by (simp add: stored_key_def)

lemma stored_keys_Education:
  "map (stored_key Education) (page_fields Education) = map snd eduFieldMappings"
  by (simp add: stored_key_def eduDisplayNames_def eduFieldMappings_def)

lemma stored_keys_distinct: "distinct (map (stored_key p) (page_fields p))"
proof (cases p)
  case Education
  show ?thesis unfolding Education stored_keys_Education by (simp add: eduFieldMappings_def)
qed (simp_all add: stored_key_def civilStatusFields_def ageGroups_def occuFields_def
      countries_def sexFields_def)

lemma year_not_stored_key: "''year'' \<notin> set (map (stored_key p) (page_fields p))"
proof (cases p)
  case Education
  show ?thesis unfolding Education stored_keys_Education by (simp add: eduFieldMappings_def)
qed (simp_all add: stored_key_def civilStatusFields_def ageGroups_def occuFields_def
      countries_def sexFields_def)

lemma stored_key_inj: "inj_on (stored_key p) (set (page_fields p))"
  using stored_keys_distinct [of p] by (simp add: distinct_map)

subsection \<open>Row validity\<close>

lemma record_year: "obj_get (row_to_record p row) ''year'' = row_year p row"
  unfolding row_to_record_def using year_not_stored_key [of p]
  by (subst get_fill_other) (simp_all add: obj_get_def)

lemma number_or_zero_NaN: "isNaN (toNumber v) \<Longrightarrow> number_or_zero v = Num (Fin 0)"
  by (simp add: number_or_zero_def js_or_def isNaN_def)

lemma number_or_zero_number: "\<not> isNaN (toNumber v) \<Longrightarrow> number_or_zero v = Num (toNumber v)"
  by (simp add: number_or_zero_def js_or_def isNaN_def)

lemma import_records_Cons:
  "import_records p (before @ row # after)
     = import_records p before
       @ (if row_valid p row then [row_to_record p row] else [])
       @ import_records p after"
  by (simp add: import_records_def)

text \<open>
  C2 (amended). What a page accepts, and the year it stores. The civil status, age and
  sex pages accept a row exactly when its cell under \<open>year\<close> is non-empty and numeric,
  and store that number. The occupation and education pages accept a row exactly when
  its cell under \<open>year\<close> or under \<open>Year\<close> is non-empty; the destination page, when its
  cell under \<open>year\<close>, \<open>Year\<close> or \<open>YEAR\<close> is; these three pages store the number of the
  first such cell, and 0 when it is not numeric, so that a row whose \<open>year\<close> cell is
  non-empty and not numeric is accepted there with the year 0. On every page an
  accepted row has a non-empty cell under one of the three names; it gives one record,
  in its place; a row that fails the page's test gives none.
\<close>

theorem importer_row_validity:
  "(p \<in> {Civil, Age, Sex} \<longrightarrow>
      row_valid p row
        = (truthy (obj_get row ''year'') \<and> \<not> isNaN (toNumber (obj_get row ''year'')))
      \<and> obj_get (row_to_record p row) ''year'' = Num (toNumber (obj_get row ''year'')))
   \<and> (p \<in> {Occupation, Education} \<longrightarrow>
      row_valid p row = (truthy (obj_get row ''year'') \<or> truthy (obj_get row ''Year''))
      \<and> obj_get (row_to_record p row) ''year''
          = number_or_zero (if truthy (obj_get row ''year'') then obj_get row ''year''
                            else obj_get row ''Year''))
   \<and> (p = Country \<longrightarrow>
      row_valid p row
        = (truthy (obj_get row ''year'') \<or> truthy (obj_get row ''Year'')
           \<or> truthy (obj_get row ''YEAR''))
      \<and> obj_get (row_to_record p row) ''year''
          = number_or_zero (if truthy (obj_get row ''year'') then obj_get row ''year''
                            else if truthy (obj_get row ''Year'') then obj_get row ''Year''
                            else obj_get row ''YEAR''))
   \<and> (isNaN (toNumber v) \<longrightarrow> number_or_zero v = Num (Fin 0))
   \<and> (\<not> isNaN (toNumber v) \<longrightarrow> number_or_zero v = Num (toNumber v))
   \<and> (p \<in> {Occupation, Education, Country} \<and> truthy (obj_get row ''year'')
        \<and> isNaN (toNumber (obj_get row ''year'')) \<longrightarrow>
      row_valid p row \<and> obj_get (row_to_record p row) ''year'' = Num (Fin 0))
   \<and> (row_valid p row \<longrightarrow>
      (\<exists>k \<in> set [''year'', ''Year'', ''YEAR'']. truthy (obj_get row k))
      \<and> import_records p (before @ row # after)
          = import_records p before @ row_to_record p row # import_records p after)
   \<and> (\<not> row_valid p bad \<longrightarrow>
      import_records p (before @ bad # after) = import_records p (before @ after))"
proof -
  have plain: "p \<in> {Civil, Age, Sex} \<longrightarrow>
      row_valid p row
        = (truthy (obj_get row ''year'') \<and> \<not> isNaN (toNumber (obj_get row ''year'')))
      \<and> obj_get (row_to_record p row) ''year'' = Num (toNumber (obj_get row ''year''))"
    by (auto simp: record_year)
  have two: "p \<in> {Occupation, Education} \<longrightarrow>
      row_valid p row = (truthy (obj_get row ''year'') \<or> truthy (obj_get row ''Year''))
      \<and> obj_get (row_to_record p row) ''year''
          = number_or_zero (if truthy (obj_get row ''year'') then obj_get row ''year''
                            else obj_get row ''Year'')"
    by (auto simp: record_year truthy_js_or number_or_zero_def js_or_def)
  have three: "p = Country \<longrightarrow>
      row_valid p row
        = (truthy (obj_get row ''year'') \<or> truthy (obj_get row ''Year'')
           \<or> truthy (obj_get row ''YEAR''))
      \<and> obj_get (row_to_record p row) ''year''
          = number_or_zero (if truthy (obj_get row ''year'') then obj_get row ''year''
                            else if truthy (obj_get row ''Year'') then obj_get row ''Year''
                            else obj_get row ''YEAR'')"
    by (auto simp: record_year truthy_js_or number_or_zero_def js_or_def)
  have zero: "p \<in> {Occupation, Education, Country} \<and> truthy (obj_get row ''year'')
        \<and> isNaN (toNumber (obj_get row ''year'')) \<longrightarrow>
      row_valid p row \<and> obj_get (row_to_record p row) ''year'' = Num (Fin 0)"
    by (auto simp: record_year truthy_js_or js_or_def isNaN_def)
  have some: "row_valid p row \<longrightarrow>
      (\<exists>k \<in> set [''year'', ''Year'', ''YEAR'']. truthy (obj_get row k))"
    by (cases p) (auto simp: truthy_js_or)
  have kept: "row_valid p row \<longrightarrow>
      import_records p (before @ row # after)
          = import_records p before @ row_to_record p row # import_records p after"
    by (simp add: import_records_Cons)
  have dropped: "\<not> row_valid p bad \<longrightarrow>
      import_records p (before @ bad # after) = import_records p (before @ after)"
    by (simp add: import_records_def)
  from plain two three zero some kept dropped number_or_zero_NaN [of v]
    number_or_zero_number [of v]
  show ?thesis by blast
qed

theorem importer_row_validity_witness:
  "row_valid Civil [(''year'', Str ''2019''), (''single'', Str ''100'')]
   \<and> obj_get (row_to_record Civil [(''year'', Str ''2019''), (''single'', Str ''100'')]) ''year''
       = Num (Fin 2019)
   \<and> \<not> row_valid Civil [(''Year'', Str ''2020''), (''single'', Str ''80'')]
   \<and> import_records Civil
         ([[(''year'', Str ''2019''), (''single'', Str ''100'')]]
          @ [(''Year'', Str ''2020''), (''single'', Str ''80'')] # [])
       = import_records Civil ([[(''year'', Str ''2019''), (''single'', Str ''100'')]] @ [])
   \<and> row_valid Occupation [(''Year'', Str ''2019''), (''Sales'', Str ''5'')]
   \<and> obj_get (row_to_record Occupation [(''Year'', Str ''2019''), (''Sales'', Str ''5'')]) ''year''
       = Num (Fin 2019)
   \<and> row_valid Country [(''YEAR'', Str ''2019''), (''USA'', Str ''5'')]
   \<and> obj_get (row_to_record Country [(''YEAR'', Str ''2019''), (''USA'', Str ''5'')]) ''year''
       = Num (Fin 2019)
   \<and> row_valid Education [(''year'', Str ''abc''), (''College Level'', Str ''5'')]
   \<and> obj_get (row_to_record Education [(''year'', Str ''abc''), (''College Level'', Str ''5'')])
         ''year'' = Num (Fin 0)
   \<and> number_or_zero (Str ''abc'') = Num (Fin 0)
   \<and> number_or_zero (Str ''2019'') = Num (Fin 2019)"
proof -
  have year: "string_to_number ''2019'' = Fin 2019" and abc: "string_to_number ''abc'' = NaN"
    by (simp_all add: number_parse_defs)
  from importer_row_validity [of Civil "[(''year'', Str ''2019''), (''single'', Str ''100'')]"
      "Str ''2019''" "[]" "[]" "[(''Year'', Str ''2020''), (''single'', Str ''80'')]"]
  have a: "row_valid Civil [(''year'', Str ''2019''), (''single'', Str ''100'')]
     \<and> obj_get (row_to_record Civil [(''year'', Str ''2019''), (''single'', Str ''100'')]) ''year''
       = Num (Fin 2019)
     \<and> number_or_zero (Str ''2019'') = Num (Fin 2019)"
    by (simp add: obj_get_Cons obj_get_Nil isNaN_def year)
  from importer_row_validity [of Civil "[(''Year'', Str ''2020''), (''single'', Str ''80'')]"
      "Str ''abc''" "[[(''year'', Str ''2019''), (''single'', Str ''100'')]]" "[]"
      "[(''Year'', Str ''2020''), (''single'', Str ''80'')]"]
  have b: "\<not> row_valid Civil [(''Year'', Str ''2020''), (''single'', Str ''80'')]
     \<and> import_records Civil
         ([[(''year'', Str ''2019''), (''single'', Str ''100'')]]
          @ [(''Year'', Str ''2020''), (''single'', Str ''80'')] # [])
       = import_records Civil ([[(''year'', Str ''2019''), (''single'', Str ''100'')]] @ [])
     \<and> number_or_zero (Str ''abc'') = Num (Fin 0)"
    by (simp add: obj_get_Cons obj_get_Nil isNaN_def abc)
  from importer_row_validity [of Occupation "[(''Year'', Str ''2019''), (''Sales'', Str ''5'')]"]
    number_or_zero_number [of "Str ''2019''"]
  have c: "row_valid Occupation [(''Year'', Str ''2019''), (''Sales'', Str ''5'')]
     \<and> obj_get (row_to_record Occupation [(''Year'', Str ''2019''), (''Sales'', Str ''5'')]) ''year''
       = Num (Fin 2019)"
    by (simp add: obj_get_Cons obj_get_Nil isNaN_def year)
  from importer_row_validity [of Country "[(''YEAR'', Str ''2019''), (''USA'', Str ''5'')]"]
    number_or_zero_number [of "Str ''2019''"]
  have d: "row_valid Country [(''YEAR'', Str ''2019''), (''USA'', Str ''5'')]
     \<and> obj_get (row_to_record Country [(''YEAR'', Str ''2019''), (''USA'', Str ''5'')]) ''year''
       = Num (Fin 2019)"
    by (simp add: obj_get_Cons obj_get_Nil isNaN_def year)
  from importer_row_validity [of Education
      "[(''year'', Str ''abc''), (''College Level'', Str ''5'')]"]
  have e: "row_valid Education [(''year'', Str ''abc''), (''College Level'', Str ''5'')]
     \<and> obj_get (row_to_record Education [(''year'', Str ''abc''), (''College Level'', Str ''5'')])
         ''year'' = Num (Fin 0)"
    by (simp add: obj_get_Cons obj_get_Nil isNaN_def abc)
  from a b c d e show ?thesis by blast
qed

text \<open>
  On the occupation page a row with the year cell \<open>abc\<close> is accepted, though the cell is
  not numeric and there is no other year column; its record has the year 0.
\<close>

theorem importer_row_validity_counterexample:
  "row_valid Occupation [(''year'', Str ''abc''), (''Sales'', Str ''5'')]
   \<and> isNaN (toNumber (obj_get [(''year'', Str ''abc''), (''Sales'', Str ''5'')] ''year''))
   \<and> \<not> truthy (obj_get [(''year'', Str ''abc''), (''Sales'', Str ''5'')] ''Year'')
   \<and> \<not> truthy (obj_get [(''year'', Str ''abc''), (''Sales'', Str ''5'')] ''YEAR'')
   \<and> length (import_records Occupation [[(''year'', Str ''abc''), (''Sales'', Str ''5'')]]) = 1
   \<and> obj_get (hd (import_records Occupation [[(''year'', Str ''abc''), (''Sales'', Str ''5'')]]))
         ''year'' = Num (Fin 0)"
proof -
  have abc: "string_to_number ''abc'' = NaN"
    by (simp add: number_parse_defs)
  have "obj_get (row_to_record Occupation [(''year'', Str ''abc''), (''Sales'', Str ''5'')]) ''year''
      = Num (Fin 0)"
    by (simp add: record_year obj_get_Cons obj_get_Nil js_or_def abc)
  then show ?thesis
    by (simp add: import_records_def truthy_js_or isNaN_def)
       (simp add: obj_get_Cons obj_get_Nil abc)
qed

subsection \<open>Adding without a year\<close>

text \<open>
  C9. When the year field of the add form is empty, Add shows the validation error and
  does nothing else: no call reaches the store, whose documents are as before, and the
  page's records and form are untouched.
\<close>

theorem add_without_year:
  assumes "obj_get (form st) ''year'' = Str []"
  shows "handleAdd p st = showMessage ''Year is required'' ''error'' st
    \<and> backend (handleAdd p st) = backend st
    \<and> calls (backend (handleAdd p st)) = calls (backend st)
    \<and> docs (backend (handleAdd p st)) = docs (backend st)
    \<and> records (handleAdd p st) = records st
    \<and> message (handleAdd p st) = (''Year is required'', ''error'')"
  using assms by (simp add: handleAdd_def showMessage_def)

theorem add_without_year_witness:
  "obj_get (form (mounted Civil empty_store)) ''year'' = Str []
   \<and> handleAdd Civil (mounted Civil empty_store)
       = showMessage ''Year is required'' ''error'' (mounted Civil empty_store)
   \<and> calls (backend (handleAdd Civil (mounted Civil empty_store))) = []
   \<and> docs (backend (handleAdd Civil (mounted Civil empty_store))) = []"
proof -
  have empty: "obj_get (form (mounted Civil empty_store)) ''year'' = Str []"
    by (simp add: mounted_def defaultForm_def obj_get_def)
  have before: "calls (backend (mounted Civil empty_store)) = []"
    "docs (backend (mounted Civil empty_store)) = []"
    by (simp_all add: mounted_def empty_store_def)
  from add_without_year [OF empty, of Civil] show ?thesis
    using empty before by (simp add: showMessage_def)
qed

subsection \<open>Edit, then cancel\<close>

lemma edit_changes_frame:
  "backend (foldl (\<lambda>s (name, v). handleEditChange name v s) st changes) = backend st
   \<and> records (foldl (\<lambda>s (name, v). handleEditChange name v s) st changes) = records st"
  by (induction changes arbitrary: st) (auto simp: handleEditChange_def)

text \<open>
  C7. Entering edit mode on a row, typing into the edit form any number of times and
  then pressing Cancel makes no call to the store: the collection, with the record
  edited and every other record, is as before; so are the page's records. The table is
  back in viewing state: \<open>editingId\<close> is cleared and the edit form is empty.
\<close>

theorem edit_then_cancel:
  "backend (handleCancel (foldl (\<lambda>s (name, v). handleEditChange name v s)
                                 (handleEdit p item st) changes)) = backend st
   \<and> docs (backend (handleCancel (foldl (\<lambda>s (name, v). handleEditChange name v s)
                                        (handleEdit p item st) changes))) = docs (backend st)
   \<and> calls (backend (handleCancel (foldl (\<lambda>s (name, v). handleEditChange name v s)
                                         (handleEdit p item st) changes))) = calls (backend st)
   \<and> records (handleCancel (foldl (\<lambda>s (name, v). handleEditChange name v s)
                                   (handleEdit p item st) changes)) = records st
   \<and> editingId (handleCancel (foldl (\<lambda>s (name, v). handleEditChange name v s)
                                     (handleEdit p item st) changes)) = Null
   \<and> editForm (handleCancel (foldl (\<lambda>s (name, v). handleEditChange name v s)
                                    (handleEdit p item st) changes)) = []"
  by (simp add: handleCancel_def edit_changes_frame) (simp add: handleEdit_def)

subsection \<open>Persisting the imported records\<close>

lemma survivors_Nil: "survivors n [] = n"
  by (cases n) simp_all

lemma survivors_le: "survivors n fs \<le> n"
  by (induction n fs rule: survivors.induct) simp_all

text \<open>The loop over the records: those before the first rejected call are appended to
  the collection, in order, under fresh ids; the loop makes one call per record up to and
  including the rejected one.\<close>

lemma add_all_effect:
  "add_all rs s =
     (if survivors (length rs) (faults s) = length rs then Inr () else Inl Rejected,
      \<lparr>docs = docs s @ zip (map auto_id [fresh s..<fresh s + survivors (length rs) (faults s)])
                           (take (survivors (length rs) (faults s)) rs),
       fresh = fresh s + survivors (length rs) (faults s),
       faults = drop (min (length rs) (Suc (survivors (length rs) (faults s)))) (faults s),
       calls = calls s @ map AddDoc (take (Suc (survivors (length rs) (faults s))) rs)\<rparr>)"
proof (induction rs arbitrary: s)
  case Nil
  then show ?case by simp
next
  case (Cons r rs)
  show ?case
  proof (cases "faults s")
    case Nil
    then show ?thesis
      by (simp add: Cons.IH addDoc_def called_def next_fault_def upt_rec [of "fresh s"]
          survivors_Nil del: upt_Suc)
  next
    case (Cons b fs)
    then show ?thesis
      by (cases b)
         (simp_all add: Cons.IH addDoc_def called_def next_fault_def upt_rec [of "fresh s"]
            del: upt_Suc)
  qed
qed

lemma fetchData_backend:
  "docs (backend (fetchData st)) = docs (backend st)
   \<and> calls (backend (fetchData st)) = calls (backend st) @ [GetDocs]"
  by (simp add: fetchData_def getDocs_def called_def showMessage_def Let_def)

text \<open>
  C5. A parse error ends the import before any call to the store. Otherwise one
  \<open>addDoc\<close> call is made per accepted row, in the order of the file; the records before
  the first rejected call are appended to the collection in that order, after the
  documents that were there, which stay as they were. When no call is rejected the
  import ends with a reload; when one is, nothing is taken back, no further call is
  made and an error is shown.
\<close>

theorem import_persistence:
  "(errors results \<noteq> [] \<longrightarrow>
      backend (complete p results st) = backend st
      \<and> message (complete p results st) = (''Error parsing CSV file'', ''error''))
   \<and> (errors results = [] \<longrightarrow>
      docs (backend (complete p results st)) =
        docs (backend st)
        @ zip (map auto_id
                 [fresh (backend st)..<
                  fresh (backend st)
                  + survivors (length (import_records p (data results))) (faults (backend st))])
              (take (survivors (length (import_records p (data results))) (faults (backend st)))
                 (import_records p (data results)))
      \<and> (survivors (length (import_records p (data results))) (faults (backend st))
           = length (import_records p (data results)) \<longrightarrow>
         calls (backend (complete p results st)) =
           calls (backend st) @ map AddDoc (import_records p (data results)) @ [GetDocs])
      \<and> (survivors (length (import_records p (data results))) (faults (backend st))
           < length (import_records p (data results)) \<longrightarrow>
         calls (backend (complete p results st)) =
           calls (backend st)
           @ map AddDoc
               (take (Suc (survivors (length (import_records p (data results)))
                             (faults (backend st))))
                  (import_records p (data results)))
         \<and> message (complete p results st) = (''Error processing CSV data'', ''error'')))"
  by (simp add: complete_def showMessage_def add_all_effect fetchData_backend Let_def)

lemma example_rows_valid: "filter (row_valid Civil) example_rows = example_rows"
  by (simp add: example_rows_def obj_get_def isNaN_def number_parse_defs)

lemma example_records_length: "length (import_records Civil example_rows) = 2"
  by (simp add: import_records_def example_rows_valid) (simp add: example_rows_def)

theorem import_persistence_witness:
  "backend (complete Civil \<lparr>data = example_rows, errors = [TooManyFields 1]\<rparr>
              (mounted Civil empty_store)) = empty_store
   \<and> calls (backend (complete Civil \<lparr>data = example_rows, errors = []\<rparr>
                       (mounted Civil empty_store)))
       = map AddDoc (import_records Civil example_rows) @ [GetDocs]
   \<and> map snd (docs (backend (complete Civil \<lparr>data = example_rows, errors = []\<rparr>
                                (mounted Civil empty_store))))
       = import_records Civil example_rows
   \<and> map snd (docs (backend (complete Civil \<lparr>data = example_rows, errors = []\<rparr>
                                (mounted Civil (empty_store\<lparr>faults := [False, True]\<rparr>)))))
       = take 1 (import_records Civil example_rows)
   \<and> calls (backend (complete Civil \<lparr>data = example_rows, errors = []\<rparr>
                       (mounted Civil (empty_store\<lparr>faults := [False, True]\<rparr>))))
       = map AddDoc (import_records Civil example_rows)
   \<and> message (complete Civil \<lparr>data = example_rows, errors = []\<rparr>
                (mounted Civil (empty_store\<lparr>faults := [False, True]\<rparr>)))
       = (''Error processing CSV data'', ''error'')"
proof -
  have all: "survivors 2 [] = 2" and one: "survivors 2 [False, True] = 1"
    by (simp_all add: eval_nat_numeral)
  have st: "backend (mounted Civil s) = s" for s
    by (simp add: mounted_def)
  note len = example_records_length
  from import_persistence [of "\<lparr>data = example_rows, errors = [TooManyFields 1]\<rparr>" Civil
      "mounted Civil empty_store"]
  have a: "backend (complete Civil \<lparr>data = example_rows, errors = [TooManyFields 1]\<rparr>
              (mounted Civil empty_store)) = empty_store"
    by (simp add: st)
  from import_persistence [of "\<lparr>data = example_rows, errors = []\<rparr>" Civil
      "mounted Civil empty_store"]
  have b: "calls (backend (complete Civil \<lparr>data = example_rows, errors = []\<rparr>
                       (mounted Civil empty_store)))
       = map AddDoc (import_records Civil example_rows) @ [GetDocs]"
    and c: "map snd (docs (backend (complete Civil \<lparr>data = example_rows, errors = []\<rparr>
                                (mounted Civil empty_store))))
       = import_records Civil example_rows"
    by (simp_all add: st len all empty_store_def)
  from import_persistence [of "\<lparr>data = example_rows, errors = []\<rparr>" Civil
      "mounted Civil (empty_store\<lparr>faults := [False, True]\<rparr>)"]
  have d: "map snd (docs (backend (complete Civil \<lparr>data = example_rows, errors = []\<rparr>
                                (mounted Civil (empty_store\<lparr>faults := [False, True]\<rparr>)))))
       = take 1 (import_records Civil example_rows)"
    and e: "calls (backend (complete Civil \<lparr>data = example_rows, errors = []\<rparr>
                       (mounted Civil (empty_store\<lparr>faults := [False, True]\<rparr>))))
       = map AddDoc (import_records Civil example_rows)"
    and f: "message (complete Civil \<lparr>data = example_rows, errors = []\<rparr>
                (mounted Civil (empty_store\<lparr>faults := [False, True]\<rparr>)))
       = (''Error processing CSV data'', ''error'')"
    by (simp_all add: st len one empty_store_def)
  from a b c d e f show ?thesis by blast
qed

subsection \<open>Column resolution\<close>

lemma first_truthy_at:
  "i < length hs \<Longrightarrow> truthy (obj_get row (hs ! i)) \<Longrightarrow>
   \<forall>j<i. \<not> truthy (obj_get row (hs ! j)) \<Longrightarrow>
   first_truthy row hs = obj_get row (hs ! i)"
proof (induction hs arbitrary: i)
  case Nil
  then show ?case by simp
next
  case (Cons h hs)
  show ?case
  proof (cases i)
    case 0
    with Cons.prems show ?thesis by (simp add: js_or_def)
  next
    case (Suc k)
    with Cons.prems have "\<not> truthy (obj_get row h)" by auto
    moreover have "first_truthy row hs = obj_get row (hs ! k)"
      using Cons.prems Suc by (intro Cons.IH) auto
    ultimately show ?thesis using Suc by (simp add: js_or_def)
  qed
qed

lemma first_truthy_none:
  "\<forall>h \<in> set hs. \<not> truthy (obj_get row h) \<Longrightarrow> first_truthy row hs = Num (Fin 0)"
  by (induction hs) (simp_all add: js_or_def)

lemma first_truthy_single_cell:
  "h \<in> set hs \<Longrightarrow> \<forall>h' \<in> set hs. obj_get row h' = (if h' = h then v else Undefined) \<Longrightarrow>
   first_truthy row hs = js_or v (Num (Fin 0))"
proof (induction hs)
  case Nil
  then show ?case by simp
next
  case (Cons g hs)
  show ?case
  proof (cases "truthy v")
    case True
    then show ?thesis using Cons by (cases "g = h") (auto simp: js_or_def)
  next
    case False
    with Cons.prems have "\<forall>h' \<in> set (g # hs). \<not> truthy (obj_get row h')" by auto
    then have "first_truthy row (g # hs) = Num (Fin 0)" by (rule first_truthy_none)
    with False show ?thesis by (simp add: js_or_def)
  qed
qed

lemma string_to_number_empty: "string_to_number [] = Fin 0"
  by (simp add: string_to_number_def js_trim_def)

lemma number_or_zero_cell:
  "number_or_zero (js_or (Str c) (Num (Fin 0))) = number_or_zero (Str c)"
  by (cases "c = []") (simp_all add: number_or_zero_def js_or_def string_to_number_empty)

lemma resolve_single_cell:
  assumes "h \<in> set (header_variants p f)"
    and "\<forall>h' \<in> set (header_variants p f). obj_get blank h' = Undefined"
  shows "resolve p (obj_set blank h (Str c)) f = number_or_zero (Str c)"
proof -
  have "\<forall>h' \<in> set (header_variants p f).
          obj_get (obj_set blank h (Str c)) h' = (if h' = h then Str c else Undefined)"
    using assms(2) by (simp add: obj_get_set)
  with assms(1) have "first_truthy (obj_set blank h (Str c)) (header_variants p f)
      = js_or (Str c) (Num (Fin 0))"
    by (rule first_truthy_single_cell)
  then show ?thesis by (simp add: resolve_def number_or_zero_cell)
qed

lemma canonical_is_variant: "f \<in> set (header_variants p f)"
  by (cases p) simp_all

lemma record_holds_resolved:
  "f \<in> set (page_fields p) \<Longrightarrow> obj_get (row_to_record p row) (stored_key p f) = resolve p row f"
  unfolding row_to_record_def
  by (rule get_fill_member [where key = "stored_key p" and val = "resolve p row"])
     (simp_all add: stored_key_inj)

text \<open>
  C3 (amended). For a row and a category, the importer takes the first non-empty cell
  among the header names that the page tries, in the page's order, turns it into a
  number (0 when it is not numeric), and gives 0 when none of these cells is non-empty;
  that value is stored in the record. The names tried are: on the occupation and
  destination pages the category, its lower-cased form and its whitespace-collapsed
  lower-cased form; on the education page the display name, its camelCase alias and the
  lower-cased forms of both; on the age page the category, the category with its first
  dash replaced by a space, and its lower-cased form; on the civil status page the
  category, the category with a capital first letter and the category with its capitals
  spaced out; on the sex page the category and the category with a capital first
  letter. A cell under any one of the names tried, in a row that has none of the others,
  resolves to the same value as under the category's own name.
\<close>

theorem column_resolution:
  "(\<forall>i < length (header_variants p f).
      truthy (obj_get row (header_variants p f ! i))
      \<and> (\<forall>j<i. \<not> truthy (obj_get row (header_variants p f ! j)))
      \<longrightarrow> resolve p row f = number_or_zero (obj_get row (header_variants p f ! i)))
   \<and> ((\<forall>h \<in> set (header_variants p f). \<not> truthy (obj_get row h))
        \<longrightarrow> resolve p row f = Num (Fin 0))
   \<and> (f \<in> set (page_fields p)
        \<longrightarrow> obj_get (row_to_record p row) (stored_key p f) = resolve p row f)
   \<and> ((\<forall>h \<in> set (header_variants p f). obj_get blank h = Undefined)
        \<longrightarrow> (\<forall>h \<in> set (header_variants p f).
               resolve p (obj_set blank h (Str c)) f = resolve p (obj_set blank f (Str c)) f))
   \<and> header_variants Occupation f = [f, toLowerCase f, toLowerCase (collapse_ws f)]
   \<and> header_variants Country f = [f, toLowerCase f, toLowerCase (collapse_ws f)]
   \<and> header_variants Education f =
        [f, stored_key Education f, toLowerCase f, toLowerCase (stored_key Education f)]
   \<and> header_variants Age f = [f, dash_to_space f, toLowerCase f]
   \<and> header_variants Civil f = [f, capitalize f, js_trim (space_capitals f)]
   \<and> header_variants Sex f = [f, capitalize f]"
proof -
  have ordered: "\<forall>i < length (header_variants p f).
      truthy (obj_get row (header_variants p f ! i))
      \<and> (\<forall>j<i. \<not> truthy (obj_get row (header_variants p f ! j)))
      \<longrightarrow> resolve p row f = number_or_zero (obj_get row (header_variants p f ! i))"
    by (simp add: resolve_def first_truthy_at)
  have fallback: "(\<forall>h \<in> set (header_variants p f). \<not> truthy (obj_get row h))
        \<longrightarrow> resolve p row f = Num (Fin 0)"
    by (simp add: resolve_def first_truthy_none number_or_zero_def js_or_def)
  have stored: "f \<in> set (page_fields p)
        \<longrightarrow> obj_get (row_to_record p row) (stored_key p f) = resolve p row f"
    by (simp add: record_holds_resolved)
  have same: "(\<forall>h \<in> set (header_variants p f). obj_get blank h = Undefined)
        \<longrightarrow> (\<forall>h \<in> set (header_variants p f).
               resolve p (obj_set blank h (Str c)) f = resolve p (obj_set blank f (Str c)) f)"
    by (simp add: resolve_single_cell canonical_is_variant)
  from ordered fallback stored same show ?thesis by simp
qed

lemma civil_variants:
  "header_variants Civil ''single'' = [''single'', ''Single'', ''single'']"
  "header_variants Civil ''notReported'' = [''notReported'', ''NotReported'', ''not Reported'']"
  by code_simp+

theorem column_resolution_witness:
  "resolve Civil [(''year'', Str ''2019''), (''Single'', Str ''100'')] ''single'' = Num (Fin 100)
   \<and> resolve Civil [(''year'', Str ''2019'')] ''single'' = Num (Fin 0)
   \<and> obj_get (row_to_record Civil [(''year'', Str ''2019''), (''Single'', Str ''100'')]) ''single''
       = Num (Fin 100)
   \<and> resolve Civil (obj_set [(''year'', Str ''2019'')] ''Single'' (Str ''100'')) ''single''
       = resolve Civil (obj_set [(''year'', Str ''2019'')] ''single'' (Str ''100'')) ''single''"
proof -
  have n: "number_or_zero (Str ''100'') = Num (Fin 100)"
    by (simp add: number_or_zero_def js_or_def number_parse_defs)
  note inst = column_resolution [of Civil "''single''" _ "[(''year'', Str ''2019'')]" "''100''"]
  note ordered = inst [THEN conjunct1, rule_format]
  note fallback = inst [THEN conjunct2, THEN conjunct1, rule_format]
  note stored = inst [THEN conjunct2, THEN conjunct2, THEN conjunct1, rule_format]
  note same = inst [THEN conjunct2, THEN conjunct2, THEN conjunct2, THEN conjunct1, rule_format]
  have "resolve Civil [(''year'', Str ''2019''), (''Single'', Str ''100'')] ''single''
      = number_or_zero (obj_get [(''year'', Str ''2019''), (''Single'', Str ''100'')]
                          (header_variants Civil ''single'' ! 1))"
    by (rule ordered) (simp_all add: civil_variants obj_get_def del: header_variants.simps)
  then have a: "resolve Civil [(''year'', Str ''2019''), (''Single'', Str ''100'')] ''single''
      = Num (Fin 100)"
    by (simp add: civil_variants obj_get_def n del: header_variants.simps)
  have b: "resolve Civil [(''year'', Str ''2019'')] ''single'' = Num (Fin 0)"
    by (rule fallback) (auto simp: civil_variants obj_get_def simp del: header_variants.simps)
  have "obj_get (row_to_record Civil [(''year'', Str ''2019''), (''Single'', Str ''100'')])
      (stored_key Civil ''single'')
      = resolve Civil [(''year'', Str ''2019''), (''Single'', Str ''100'')] ''single''"
    by (rule stored) (simp add: civilStatusFields_def)
  then have c: "obj_get (row_to_record Civil [(''year'', Str ''2019''), (''Single'', Str ''100'')])
      ''single'' = Num (Fin 100)"
    by (simp add: a stored_key_def)
  have d: "resolve Civil (obj_set [(''year'', Str ''2019'')] ''Single'' (Str ''100'')) ''single''
       = resolve Civil (obj_set [(''year'', Str ''2019'')] ''single'' (Str ''100'')) ''single''"
    by (rule same) (auto simp: civil_variants obj_get_def simp del: header_variants.simps)
  from a b c d show ?thesis by simp
qed

text \<open>
  On the civil status page the lower-cased form of \<open>notReported\<close> is not among the names
  tried: a row with its count under \<open>notreported\<close> is accepted and gets 0, where the
  same cell under \<open>notReported\<close> gives 5.
\<close>

theorem column_resolution_counterexample:
  "toLowerCase ''notReported'' = ''notreported''
   \<and> row_valid Civil [(''year'', Str ''2019''), (''notreported'', Str ''5'')]
   \<and> resolve Civil [(''year'', Str ''2019''), (''notreported'', Str ''5'')] ''notReported''
       = Num (Fin 0)
   \<and> resolve Civil [(''year'', Str ''2019''), (''notReported'', Str ''5'')] ''notReported''
       = Num (Fin 5)"
proof -
  have "toLowerCase ''notReported'' = ''notreported''"
    by code_simp
  moreover have "row_valid Civil [(''year'', Str ''2019''), (''notreported'', Str ''5'')]"
    by (simp add: obj_get_def isNaN_def number_parse_defs)
  moreover have
    "resolve Civil [(''year'', Str ''2019''), (''notreported'', Str ''5'')] ''notReported''
       = Num (Fin 0)"
    unfolding resolve_def civil_variants
    by (simp add: obj_get_def js_or_def number_or_zero_def)
  moreover have
    "resolve Civil [(''year'', Str ''2019''), (''notReported'', Str ''5'')] ''notReported''
       = Num (Fin 5)"
    unfolding resolve_def civil_variants
    by (simp add: obj_get_def js_or_def number_or_zero_def number_parse_defs)
  ultimately show ?thesis by simp
qed

subsection \<open>Saving an edit\<close>

lemma number_or_zero_cases:
  "number_or_zero v =
     (if toNumber v = NaN \<or> toNumber v = Fin 0 then Num (Fin 0) else Num (toNumber v))"
  by (simp add: number_or_zero_def js_or_def)

lemma payload_keys:
  "map fst (getRecordFromForm p frm) = ''year'' # map (stored_key p) (page_fields p)"
  unfolding getRecordFromForm_def
  using keys_fill [of "stored_key p" "page_fields p"
      "[(''year'', Num (toNumber (obj_get frm ''year'')))]"
      "\<lambda>f. number_or_zero (obj_get frm f)"]
    stored_keys_distinct [of p] year_not_stored_key [of p]
  by simp

lemma payload_year:
  "obj_get (getRecordFromForm p frm) ''year'' = Num (toNumber (obj_get frm ''year''))"
  unfolding getRecordFromForm_def using year_not_stored_key [of p]
  by (subst get_fill_other) (simp_all add: obj_get_def)

lemma payload_field:
  "f \<in> set (page_fields p) \<Longrightarrow>
   obj_get (getRecordFromForm p frm) (stored_key p f) = number_or_zero (obj_get frm f)"
  unfolding getRecordFromForm_def
  by (rule get_fill_member [where key = "stored_key p" and val = "\<lambda>f. number_or_zero (obj_get frm f)"])
     (simp_all add: stored_key_inj)

lemma obj_get_absent: "k \<notin> set (map fst ob) \<Longrightarrow> obj_get ob k = Undefined"
  by (simp add: obj_get_def map_of_eq_None_iff [THEN iffD2])

text \<open>What \<open>updateDoc\<close> leaves in a document: the given fields, and the old value of
  every other field.\<close>

lemma obj_get_spread:
  "distinct (map fst b) \<Longrightarrow>
   obj_get (spread a b) k = (if k \<in> set (map fst b) then obj_get b k else obj_get a k)"
proof (induction b arbitrary: a)
  case Nil
  then show ?case by (simp add: spread_def)
next
  case (Cons kv b)
  obtain k0 v0 where kv: "kv = (k0, v0)" by (cases kv)
  have step: "spread a (kv # b) = spread (obj_set a k0 v0) b"
    by (simp add: spread_def kv)
  from Cons.prems have d: "distinct (map fst b)" and new: "k0 \<notin> set (map fst b)"
    by (simp_all add: kv)
  have "obj_get (spread a (kv # b)) k
      = (if k \<in> set (map fst b) then obj_get b k else obj_get (obj_set a k0 v0) k)"
    by (simp only: step Cons.IH [OF d])
  also have "\<dots> = (if k \<in> set (map fst (kv # b)) then obj_get (kv # b) k else obj_get a k)"
    using new by (auto simp: kv obj_get_Cons obj_get_set)
  finally show ?case .
qed

lemma payload_distinct: "distinct (map fst (getRecordFromForm p frm))"
  using stored_keys_distinct [of p] year_not_stored_key [of p] by (simp add: payload_keys)

lemma save_succeeds:
  assumes "save_checks p i st = None" "\<not> next_fault (backend st)"
    "i \<in> set (map fst (docs (backend st)))"
  shows "editingId (handleSave p i st) = Null \<and> editForm (handleSave p i st) = []
    \<and> calls (backend (handleSave p i st))
        = calls (backend st) @ [UpdateDoc i (getRecordFromForm p (editForm st)), GetDocs]
    \<and> docs (backend (handleSave p i st))
        = map (\<lambda>(j, old). if j = i then (j, spread old (getRecordFromForm p (editForm st)))
                           else (j, old))
            (docs (backend st))"
  using assms
  by (simp add: handleSave_def updateDoc_def called_def showMessage_def fetchData_def
      getDocs_def next_fault_def Let_def split: list.splits)

lemma save_fails:
  assumes "save_checks p i st = None"
    "next_fault (backend st) \<or> i \<notin> set (map fst (docs (backend st)))"
  shows "editingId (handleSave p i st) = editingId st
    \<and> editForm (handleSave p i st) = editForm st
    \<and> docs (backend (handleSave p i st)) = docs (backend st)
    \<and> snd (message (handleSave p i st)) = ''error''
    \<and> calls (backend (handleSave p i st))
        = calls (backend st) @ [UpdateDoc i (getRecordFromForm p (editForm st))]"
  using assms
  by (auto simp: handleSave_def updateDoc_def called_def showMessage_def Let_def)

lemma payload_numbers:
  assumes "\<not> isNaN (toNumber (obj_get frm ''year''))"
    and "k \<in> set (map fst (getRecordFromForm p frm))"
  shows "\<exists>n. obj_get (getRecordFromForm p frm) k = Num n \<and> n \<noteq> NaN"
proof (cases "k = ''year''")
  case True
  with assms(1) show ?thesis by (simp add: payload_year isNaN_def)
next
  case False
  with assms(2) obtain f where "f \<in> set (page_fields p)" "k = stored_key p f"
    by (auto simp: payload_keys)
  then show ?thesis by (simp add: payload_field number_or_zero_cases)
qed

lemma overwrite_shaped:
  assumes "set (map fst old) \<subseteq> set (''year'' # map (stored_key p) (page_fields p))"
  shows "obj_get (spread old (getRecordFromForm p frm)) k = obj_get (getRecordFromForm p frm) k"
proof (cases "k \<in> set (map fst (getRecordFromForm p frm))")
  case True
  then show ?thesis by (simp add: obj_get_spread [OF payload_distinct])
next
  case False
  with assms have "k \<notin> set (map fst old)"
    by (auto simp: payload_keys)
  with False show ?thesis
    by (simp add: obj_get_spread [OF payload_distinct] obj_get_absent)
qed

text \<open>
  C8. The inputs of the edit form are number inputs, whose text is empty or a number,
  so the year text converts to a number. Save then turns every field of the edit form
  into a number: a category text that is not numeric, empty or zero into 0, the year
  text into its number, the empty one into 0; no field of the update is \<open>NaN\<close>. The
  update carries the year and every category of the record shape, whichever were
  edited, so a stored document of that shape is overwritten in every field. When the
  update succeeds, the row is back in viewing state (\<open>editingId\<close> cleared, edit form
  emptied) and a reload follows; when it fails, the row stays in edit mode with its
  form, the collection is unchanged and an error message is shown. (On the education
  page Save first checks the id and the year, and a failed check is such a failure,
  before any call to the store.)
\<close>

theorem save_edit:
  assumes "\<not> isNaN (toNumber (obj_get (editForm st) ''year''))"
  shows "(p \<noteq> Education \<longrightarrow> save_checks p i st = None)
   \<and> (\<forall>f \<in> set (page_fields p).
         obj_get (getRecordFromForm p (editForm st)) (stored_key p f)
           = number_or_zero (obj_get (editForm st) f))
   \<and> (\<forall>v. number_or_zero v
           = (if toNumber v = NaN \<or> toNumber v = Fin 0 then Num (Fin 0) else Num (toNumber v)))
   \<and> obj_get (getRecordFromForm p (editForm st)) ''year''
       = Num (toNumber (obj_get (editForm st) ''year''))
   \<and> (obj_get (editForm st) ''year'' = Str [] \<longrightarrow>
        obj_get (getRecordFromForm p (editForm st)) ''year'' = Num (Fin 0))
   \<and> (\<forall>k \<in> set (map fst (getRecordFromForm p (editForm st))).
         \<exists>n. obj_get (getRecordFromForm p (editForm st)) k = Num n \<and> n \<noteq> NaN)
   \<and> map fst (getRecordFromForm p (editForm st)) = ''year'' # map (stored_key p) (page_fields p)
   \<and> (\<forall>old k. set (map fst old) \<subseteq> set (''year'' # map (stored_key p) (page_fields p)) \<longrightarrow>
          obj_get (spread old (getRecordFromForm p (editForm st))) k
            = obj_get (getRecordFromForm p (editForm st)) k)
   \<and> (save_checks p i st = None \<and> \<not> next_fault (backend st)
        \<and> i \<in> set (map fst (docs (backend st))) \<longrightarrow>
        editingId (handleSave p i st) = Null \<and> editForm (handleSave p i st) = []
        \<and> calls (backend (handleSave p i st))
            = calls (backend st) @ [UpdateDoc i (getRecordFromForm p (editForm st)), GetDocs]
        \<and> docs (backend (handleSave p i st))
            = map (\<lambda>(j, old). if j = i then (j, spread old (getRecordFromForm p (editForm st)))
                               else (j, old))
                (docs (backend st)))
   \<and> (save_checks p i st = None
        \<and> (next_fault (backend st) \<or> i \<notin> set (map fst (docs (backend st)))) \<longrightarrow>
        editingId (handleSave p i st) = editingId st
        \<and> editForm (handleSave p i st) = editForm st
        \<and> docs (backend (handleSave p i st)) = docs (backend st)
        \<and> snd (message (handleSave p i st)) = ''error''
        \<and> calls (backend (handleSave p i st))
            = calls (backend st) @ [UpdateDoc i (getRecordFromForm p (editForm st))])
   \<and> (\<forall>text. save_checks p i st = Some text \<longrightarrow>
        handleSave p i st = showMessage text ''error'' st
        \<and> editingId (handleSave p i st) = editingId st
        \<and> editForm (handleSave p i st) = editForm st
        \<and> backend (handleSave p i st) = backend st
        \<and> snd (message (handleSave p i st)) = ''error'')"
proof -
  have checks: "p \<noteq> Education \<longrightarrow> save_checks p i st = None"
    by (simp add: save_checks_def)
  have cats: "\<forall>f \<in> set (page_fields p).
         obj_get (getRecordFromForm p (editForm st)) (stored_key p f)
           = number_or_zero (obj_get (editForm st) f)"
    by (simp add: payload_field)
  have conv: "\<forall>v. number_or_zero v
           = (if toNumber v = NaN \<or> toNumber v = Fin 0 then Num (Fin 0) else Num (toNumber v))"
    using number_or_zero_cases by blast
  have empty: "obj_get (editForm st) ''year'' = Str [] \<longrightarrow>
        obj_get (getRecordFromForm p (editForm st)) ''year'' = Num (Fin 0)"
    by (simp add: payload_year string_to_number_empty)
  have numbers: "\<forall>k \<in> set (map fst (getRecordFromForm p (editForm st))).
         \<exists>n. obj_get (getRecordFromForm p (editForm st)) k = Num n \<and> n \<noteq> NaN"
    using payload_numbers [OF assms] by blast
  have over: "\<forall>old k. set (map fst old) \<subseteq> set (''year'' # map (stored_key p) (page_fields p)) \<longrightarrow>
          obj_get (spread old (getRecordFromForm p (editForm st))) k
            = obj_get (getRecordFromForm p (editForm st)) k"
    using overwrite_shaped by blast
  have ok: "save_checks p i st = None \<and> \<not> next_fault (backend st)
        \<and> i \<in> set (map fst (docs (backend st))) \<longrightarrow>
        editingId (handleSave p i st) = Null \<and> editForm (handleSave p i st) = []
        \<and> calls (backend (handleSave p i st))
            = calls (backend st) @ [UpdateDoc i (getRecordFromForm p (editForm st)), GetDocs]
        \<and> docs (backend (handleSave p i st))
            = map (\<lambda>(j, old). if j = i then (j, spread old (getRecordFromForm p (editForm st)))
                               else (j, old))
                (docs (backend st))"
    using save_succeeds by blast
  have bad: "save_checks p i st = None
        \<and> (next_fault (backend st) \<or> i \<notin> set (map fst (docs (backend st)))) \<longrightarrow>
        editingId (handleSave p i st) = editingId st
        \<and> editForm (handleSave p i st) = editForm st
        \<and> docs (backend (handleSave p i st)) = docs (backend st)
        \<and> snd (message (handleSave p i st)) = ''error''
        \<and> calls (backend (handleSave p i st))
            = calls (backend st) @ [UpdateDoc i (getRecordFromForm p (editForm st))]"
    using save_fails by blast
  have refused: "\<forall>text. save_checks p i st = Some text \<longrightarrow>
        handleSave p i st = showMessage text ''error'' st
        \<and> editingId (handleSave p i st) = editingId st
        \<and> editForm (handleSave p i st) = editForm st
        \<and> backend (handleSave p i st) = backend st
        \<and> snd (message (handleSave p i st)) = ''error''"
    by (simp add: handleSave_def showMessage_def)
  from checks cats conv payload_year empty numbers payload_keys over ok bad refused
  show ?thesis by blast
qed

lemma editing_row_fields:
  "backend editing_row = one_doc_store"
  "editingId editing_row = Str ''doc0''"
  "obj_get (editForm editing_row) ''year'' = Str ''2019''"
  "obj_get (editForm editing_row) ''married'' = Str ''60''"
  "obj_get (editForm editing_row) ''widower'' = Str []"
  by (simp_all add: editing_row_def mounted_def obj_get_def)

lemma one_doc_store_fields:
  "\<not> next_fault one_doc_store" "map fst (docs one_doc_store) = [''doc0'']"
  "calls one_doc_store = []" "next_fault (one_doc_store\<lparr>faults := [True]\<rparr>)"
  "docs (one_doc_store\<lparr>faults := [True]\<rparr>) = docs one_doc_store"
  by (simp_all add: one_doc_store_def next_fault_def)

theorem save_edit_witness:
  "obj_get (getRecordFromForm Civil (editForm editing_row)) ''year'' = Num (Fin 2019)
   \<and> obj_get (getRecordFromForm Civil (editForm editing_row)) ''married'' = Num (Fin 60)
   \<and> obj_get (getRecordFromForm Civil (editForm editing_row)) ''widower'' = Num (Fin 0)
   \<and> obj_get (spread (snd (hd (docs one_doc_store)))
                 (getRecordFromForm Civil (editForm editing_row))) ''married'' = Num (Fin 60)
   \<and> editingId (handleSave Civil ''doc0'' editing_row) = Null
   \<and> editForm (handleSave Civil ''doc0'' editing_row) = []
   \<and> calls (backend (handleSave Civil ''doc0'' editing_row))
       = [UpdateDoc ''doc0'' (getRecordFromForm Civil (editForm editing_row)), GetDocs]
   \<and> docs (backend (handleSave Civil ''doc0'' editing_row))
       = [(''doc0'', spread (snd (hd (docs one_doc_store)))
                       (getRecordFromForm Civil (editForm editing_row)))]
   \<and> editingId (handleSave Civil ''doc0''
                   (editing_row\<lparr>backend := one_doc_store\<lparr>faults := [True]\<rparr>\<rparr>)) = Str ''doc0''
   \<and> docs (backend (handleSave Civil ''doc0''
                       (editing_row\<lparr>backend := one_doc_store\<lparr>faults := [True]\<rparr>\<rparr>)))
       = docs one_doc_store
   \<and> snd (message (handleSave Civil ''doc0''
                      (editing_row\<lparr>backend := one_doc_store\<lparr>faults := [True]\<rparr>\<rparr>))) = ''error''
   \<and> handleSave Education [] (editing_row\<lparr>backend := one_doc_store\<rparr>)
       = showMessage ''Error: No record ID found'' ''error''
           (editing_row\<lparr>backend := one_doc_store\<rparr>)"
proof -
  have year: "string_to_number ''2019'' = Fin 2019"
    by (simp add: number_parse_defs)
  have sixty: "number_or_zero (Str ''60'') = Num (Fin 60)"
    and none: "number_or_zero (Str []) = Num (Fin 0)"
    by (simp_all add: number_or_zero_def js_or_def number_parse_defs)
  have numeric: "\<not> isNaN (toNumber (obj_get (editForm editing_row) ''year''))"
    by (simp add: editing_row_fields isNaN_def year)
  note civil = save_edit [OF numeric, of Civil "''doc0''"]
  note checks = civil [THEN conjunct1, rule_format]
  note cats = civil [THEN conjunct2, THEN conjunct1, rule_format]
  note over = civil [THEN conjunct2, THEN conjunct2, THEN conjunct2, THEN conjunct2,
      THEN conjunct2, THEN conjunct2, THEN conjunct2, THEN conjunct1, rule_format]
  have passes: "save_checks Civil ''doc0'' editing_row = None"
    by (rule checks) simp
  from civil have y: "obj_get (getRecordFromForm Civil (editForm editing_row)) ''year''
      = Num (Fin 2019)"
    by (simp add: editing_row_fields year)
  have "obj_get (getRecordFromForm Civil (editForm editing_row)) (stored_key Civil ''married'')
      = number_or_zero (obj_get (editForm editing_row) ''married'')"
    by (rule cats) (simp add: civilStatusFields_def)
  then have a: "obj_get (getRecordFromForm Civil (editForm editing_row)) ''married''
      = Num (Fin 60)"
    by (simp add: stored_key_def editing_row_fields sixty)
  have "obj_get (getRecordFromForm Civil (editForm editing_row)) (stored_key Civil ''widower'')
      = number_or_zero (obj_get (editForm editing_row) ''widower'')"
    by (rule cats) (simp add: civilStatusFields_def)
  then have b: "obj_get (getRecordFromForm Civil (editForm editing_row)) ''widower''
      = Num (Fin 0)"
    by (simp add: stored_key_def editing_row_fields none)
  have "obj_get (spread (snd (hd (docs one_doc_store)))
                 (getRecordFromForm Civil (editForm editing_row))) ''married''
      = obj_get (getRecordFromForm Civil (editForm editing_row)) ''married''"
    by (rule over) (simp add: one_doc_store_def civilStatusFields_def stored_key_def)
  with a have o: "obj_get (spread (snd (hd (docs one_doc_store)))
                 (getRecordFromForm Civil (editForm editing_row))) ''married'' = Num (Fin 60)"
    by simp
  from civil passes
  have c: "editingId (handleSave Civil ''doc0'' editing_row) = Null
     \<and> editForm (handleSave Civil ''doc0'' editing_row) = []
     \<and> calls (backend (handleSave Civil ''doc0'' editing_row))
       = [UpdateDoc ''doc0'' (getRecordFromForm Civil (editForm editing_row)), GetDocs]
     \<and> docs (backend (handleSave Civil ''doc0'' editing_row))
       = map (\<lambda>(j, old). if j = ''doc0''
                then (j, spread old (getRecordFromForm Civil (editForm editing_row)))
                else (j, old)) (docs one_doc_store)"
    by (simp add: editing_row_fields one_doc_store_fields)
  have c': "docs (backend (handleSave Civil ''doc0'' editing_row))
       = [(''doc0'', spread (snd (hd (docs one_doc_store)))
                       (getRecordFromForm Civil (editForm editing_row)))]"
    using c by (simp add: one_doc_store_def)
  have numeric': "\<not> isNaN (toNumber (obj_get
      (editForm (editing_row\<lparr>backend := one_doc_store\<lparr>faults := [True]\<rparr>\<rparr>)) ''year''))"
    using numeric by simp
  have passes_too: "save_checks Civil ''doc0''
      (editing_row\<lparr>backend := one_doc_store\<lparr>faults := [True]\<rparr>\<rparr>) = None"
    by (simp add: save_checks_def)
  from save_edit [OF numeric', of Civil "''doc0''"] passes_too
  have d: "editingId (handleSave Civil ''doc0''
                   (editing_row\<lparr>backend := one_doc_store\<lparr>faults := [True]\<rparr>\<rparr>)) = Str ''doc0''
   \<and> docs (backend (handleSave Civil ''doc0''
                       (editing_row\<lparr>backend := one_doc_store\<lparr>faults := [True]\<rparr>\<rparr>)))
       = docs one_doc_store
   \<and> snd (message (handleSave Civil ''doc0''
                      (editing_row\<lparr>backend := one_doc_store\<lparr>faults := [True]\<rparr>\<rparr>))) = ''error''"
    by (simp add: editing_row_fields one_doc_store_fields)
  have numeric'': "\<not> isNaN (toNumber (obj_get
      (editForm (editing_row\<lparr>backend := one_doc_store\<rparr>)) ''year''))"
    using numeric by simp
  have refused: "save_checks Education [] (editing_row\<lparr>backend := one_doc_store\<rparr>)
      = Some ''Error: No record ID found''"
    by (simp add: save_checks_def)
  from save_edit [OF numeric'', of Education "[]"] refused
  have e: "handleSave Education [] (editing_row\<lparr>backend := one_doc_store\<rparr>)
       = showMessage ''Error: No record ID found'' ''error''
           (editing_row\<lparr>backend := one_doc_store\<rparr>)"
    by blast
  from y a b o c c' d e show ?thesis by simp
qed

subsection \<open>The year selector\<close>

lemma cmp_sub: "num_gt (num_sub y x) (Fin 0) = num_less x y"
  by (cases x; cases y) (simp_all add: num_gt_def num_sub_def)

lemma num_less_trans: "num_less a b \<Longrightarrow> num_less b c \<Longrightarrow> num_less a c"
  by (cases a; cases b; cases c) simp_all

lemma num_less_asym: "num_less a b \<Longrightarrow> \<not> num_less b a"
  by (cases a; cases b) simp_all

lemma num_less_total: "a \<noteq> NaN \<Longrightarrow> b \<noteq> NaN \<Longrightarrow> a \<noteq> b \<Longrightarrow> num_less a b \<or> num_less b a"
  by (cases a; cases b) auto

lemma set_insert_sorted: "set (insert_sorted cmp x ys) = insert x (set ys)"
  by (induction ys) auto

lemma set_array_sort_gen:
  "set (foldl (\<lambda>acc x. insert_sorted cmp x acc) acc xs) = set acc \<union> set xs"
  by (induction xs arbitrary: acc) (auto simp: set_insert_sorted)

lemma set_array_sort: "set (array_sort cmp xs) = set xs"
  by (simp add: array_sort_def set_array_sort_gen)

lemma length_insert_sorted: "length (insert_sorted cmp x ys) = Suc (length ys)"
  by (induction ys) auto

lemma length_array_sort_gen:
  "length (foldl (\<lambda>acc x. insert_sorted cmp x acc) acc xs) = length acc + length xs"
  by (induction xs arbitrary: acc) (auto simp: length_insert_sorted)

lemma distinct_array_sort:
  assumes "distinct xs"
  shows "distinct (array_sort cmp xs)"
proof (rule card_distinct)
  have "length (array_sort cmp xs) = length xs"
    by (simp add: array_sort_def length_array_sort_gen)
  with assms show "card (set (array_sort cmp xs)) = length (array_sort cmp xs)"
    by (simp add: set_array_sort distinct_card)
qed

lemma sorted_insert_sorted:
  "sorted_wrt (\<lambda>a b. \<not> num_less b a) ys \<Longrightarrow>
   sorted_wrt (\<lambda>a b. \<not> num_less b a) (insert_sorted (\<lambda>a b. num_sub a b) x ys)"
  by (induction ys) (auto simp: cmp_sub set_insert_sorted dest: num_less_asym num_less_trans)

lemma sorted_array_sort_gen:
  "sorted_wrt (\<lambda>a b. \<not> num_less b a) acc \<Longrightarrow>
   sorted_wrt (\<lambda>a b. \<not> num_less b a) (foldl (\<lambda>acc x. insert_sorted (\<lambda>a b. num_sub a b) x acc) acc xs)"
  by (induction xs arbitrary: acc) (auto simp: sorted_insert_sorted)

lemma sorted_array_sort:
  "sorted_wrt (\<lambda>a b. \<not> num_less b a) (array_sort (\<lambda>a b. num_sub a b) xs)"
  by (simp add: array_sort_def sorted_array_sort_gen)

lemma strictly_sorted:
  assumes "sorted_wrt (\<lambda>a b. \<not> num_less b a) xs" "distinct xs" "NaN \<notin> set xs"
  shows "sorted_wrt num_less xs"
  using assms
  by (induction xs) (auto, metis num_less_total)

lemma set_from_set_gen: "set (foldl set_add acc xs) = set acc \<union> set xs"
  by (induction xs arbitrary: acc) (auto simp: set_add_def)

lemma distinct_from_set_gen: "distinct acc \<Longrightarrow> distinct (foldl set_add acc xs)"
  by (induction xs arbitrary: acc) (auto simp: set_add_def)

lemma set_array_from_set: "set (array_from_set xs) = set xs"
  by (simp add: array_from_set_def set_from_set_gen)

lemma distinct_array_from_set: "distinct (array_from_set xs)"
  by (simp add: array_from_set_def distinct_from_set_gen)

lemma set_years:
  "set (years recs) = toNumber ` {v \<in> (\<lambda>r. obj_get r ''year'') ` set recs. truthy v}"
  by (auto simp: years_def set_array_sort set_array_from_set)

lemma falsy_number: "\<not> truthy v \<Longrightarrow> toNumber v = NaN \<or> toNumber v = Fin 0"
  by (cases v) (auto simp: string_to_number_empty)

lemma year_mix_years: "years year_mix = [Fin 2019, Fin 2020]"
  by (simp add: years_def year_mix_def obj_get_def array_from_set_def set_add_def
      array_sort_def cmp_sub)

text \<open>
  C6 (amended). The list of the year selector is a function of the records alone, so the
  selected year has no part in it. When the year values that are not falsy are numbers,
  the list is strictly ascending, hence without duplicates, and holds exactly the
  years of the records other than 0 and \<open>NaN\<close>.
\<close>

theorem year_selector:
  assumes "\<forall>r \<in> set recs. truthy (obj_get r ''year'') \<longrightarrow> (\<exists>n. obj_get r ''year'' = Num n)"
  shows "sorted_wrt num_less (years recs)
    \<and> distinct (years recs)
    \<and> set (years recs)
        = {n. Num n \<in> (\<lambda>r. obj_get r ''year'') ` set recs \<and> n \<noteq> Fin 0 \<and> n \<noteq> NaN}
    \<and> years (records (st\<lparr>records := recs, selectedYear := selected\<rparr>)) = years recs"
proof -
  let ?vs = "array_from_set (filter truthy (map (\<lambda>r. obj_get r ''year'') recs))"
  have nums: "\<forall>v \<in> set ?vs. \<exists>n. v = Num n \<and> n \<noteq> Fin 0 \<and> n \<noteq> NaN"
    using assms by (auto simp: set_array_from_set)
  have inj: "inj_on toNumber (set ?vs)"
  proof (rule inj_onI)
    fix x y assume "x \<in> set ?vs" "y \<in> set ?vs" and eq: "toNumber x = toNumber y"
    with nums obtain n m where "x = Num n" "y = Num m" by blast
    with eq show "x = y" by simp
  qed
  have d: "distinct (map toNumber ?vs)"
    by (simp add: distinct_map distinct_array_from_set inj)
  then have distinct: "distinct (years recs)"
    unfolding years_def by (rule distinct_array_sort)
  have members: "set (years recs)
        = {n. Num n \<in> (\<lambda>r. obj_get r ''year'') ` set recs \<and> n \<noteq> Fin 0 \<and> n \<noteq> NaN}"
  proof (intro set_eqI iffI)
    fix n assume "n \<in> set (years recs)"
    then obtain v where v: "v \<in> (\<lambda>r. obj_get r ''year'') ` set recs" "truthy v" "n = toNumber v"
      by (auto simp: set_years)
    with assms obtain m where "v = Num m" by auto
    with v show "n \<in> {n. Num n \<in> (\<lambda>r. obj_get r ''year'') ` set recs \<and> n \<noteq> Fin 0 \<and> n \<noteq> NaN}"
      by auto
  next
    fix n assume "n \<in> {n. Num n \<in> (\<lambda>r. obj_get r ''year'') ` set recs \<and> n \<noteq> Fin 0 \<and> n \<noteq> NaN}"
    then have "Num n \<in> {v \<in> (\<lambda>r. obj_get r ''year'') ` set recs. truthy v}" by simp
    then have "toNumber (Num n) \<in> set (years recs)"
      unfolding set_years by (rule imageI)
    then show "n \<in> set (years recs)" by simp
  qed
  then have "NaN \<notin> set (years recs)" by simp
  with sorted_array_sort [of "map toNumber ?vs"] distinct
  have "sorted_wrt num_less (years recs)"
    unfolding years_def by (intro strictly_sorted)
  with distinct members show ?thesis by simp
qed

theorem year_selector_witness:
  "map (\<lambda>r. obj_get r ''year'') year_mix
     = [Num (Fin 2020), Num (Fin 2019), Num (Fin 2020), Num (Fin 0)]
   \<and> years year_mix = [Fin 2019, Fin 2020]
   \<and> sorted_wrt num_less (years year_mix)
   \<and> distinct (years year_mix)
   \<and> set (years year_mix)
       = {n. Num n \<in> (\<lambda>r. obj_get r ''year'') ` set year_mix \<and> n \<noteq> Fin 0 \<and> n \<noteq> NaN}"
proof -
  have stored: "map (\<lambda>r. obj_get r ''year'') year_mix
     = [Num (Fin 2020), Num (Fin 2019), Num (Fin 2020), Num (Fin 0)]"
    by (simp add: year_mix_def obj_get_def)
  have numbers: "\<forall>r \<in> set year_mix. truthy (obj_get r ''year'') \<longrightarrow> (\<exists>n. obj_get r ''year'' = Num n)"
    by (simp add: year_mix_def obj_get_def)
  from year_selector [OF numbers] stored year_mix_years show ?thesis
    by blast
qed

text \<open>
  A record of the year 0 is in the list of records but its year is not in the
  selector; and the year 2019 stored once as text and once as a number is listed twice.
\<close>

theorem year_selector_counterexample:
  "obj_get [(''year'', Num (Fin 0))] ''year'' = Num (Fin 0)
   \<and> years [[(''year'', Num (Fin 0))]] = []
   \<and> years [[(''year'', Str ''2019'')], [(''year'', Num (Fin 2019))]] = [Fin 2019, Fin 2019]"
  by (simp add: years_def obj_get_def array_from_set_def set_add_def array_sort_def cmp_sub
      number_parse_defs)

subsection \<open>The total of a category\<close>

lemma count_or_zero:
  "truthy (obj_get r c) \<longrightarrow> (\<exists>q. obj_get r c = Num (Fin q)) \<Longrightarrow>
   js_add (Num (Fin a)) (js_or (obj_get r c) (Num (Fin 0))) = Num (Fin (a + count_of r c))"
  by (cases "obj_get r c" rule: jsval.exhaust; cases "truthy (obj_get r c)")
     (auto simp: js_add_def js_or_def count_of_def split: jsnum.splits)

lemma country_total_sum_gen:
  "\<forall>r \<in> set rs. truthy (obj_get r c) \<longrightarrow> (\<exists>q. obj_get r c = Num (Fin q)) \<Longrightarrow>
   foldl (\<lambda>sum item. js_add sum (js_or (obj_get item c) (Num (Fin 0)))) (Num (Fin a)) rs
     = Num (Fin (a + sum_list (map (\<lambda>r. count_of r c) rs)))"
proof (induction rs arbitrary: a)
  case Nil
  then show ?case by simp
next
  case (Cons r rs)
  then show ?case by (simp add: count_or_zero add.assoc)
qed

lemma bump_fields:
  "distinct fs \<Longrightarrow>
   obj_get (foldl (\<lambda>a field. obj_set a field
                     (js_add (obj_get a field) (js_or (obj_get cur field) z))) acc fs) f
     = (if f \<in> set fs then js_add (obj_get acc f) (js_or (obj_get cur f) z)
        else obj_get acc f)"
  by (induction fs arbitrary: acc) (auto simp: obj_get_set)

lemma civil_fields_distinct: "distinct civilStatusFields"
  by (simp add: civilStatusFields_def)

lemma totals_field:
  assumes "f \<in> set civilStatusFields"
  shows "obj_get (totals recs selected) f
    = foldl (\<lambda>sum r. js_add sum (js_or (obj_get r f) (Num (Fin 0)))) (Num (Fin 0))
        (filteredRecords recs selected)"
proof -
  have step: "obj_get (foldl (\<lambda>acc cur.
              foldl (\<lambda>a field.
                       obj_set a field
                         (js_add (obj_get a field) (js_or (obj_get cur field) (Num (Fin 0)))))
                acc civilStatusFields) init rs) f
      = foldl (\<lambda>sum r. js_add sum (js_or (obj_get r f) (Num (Fin 0)))) (obj_get init f) rs"
    for init rs
    using assms
    by (induction rs arbitrary: init) (simp_all add: bump_fields civil_fields_distinct)
  have "obj_get [(''single'', Num (Fin 0)), (''married'', Num (Fin 0)), (''widower'', Num (Fin 0)),
        (''separated'', Num (Fin 0)), (''divorced'', Num (Fin 0)),
        (''notReported'', Num (Fin 0))] f = Num (Fin 0)"
    using assms by (auto simp: civilStatusFields_def obj_get_def)
  then show ?thesis by (simp add: totals_def step)
qed

lemma totals_all_sum:
  assumes "f \<in> set civilStatusFields"
    and "\<forall>x \<in> set recs. truthy (obj_get x f) \<longrightarrow> (\<exists>k::int. obj_get x f = Num (Fin (of_int k)))"
  shows "obj_get (totals recs ''All'') f = Num (Fin (sum_list (map (\<lambda>x. count_of x f) recs)))"
proof -
  have "\<forall>x \<in> set recs. truthy (obj_get x f) \<longrightarrow> (\<exists>q. obj_get x f = Num (Fin q))"
    using assms(2) by blast
  from country_total_sum_gen [OF this, of 0] show ?thesis
    by (simp add: totals_field [OF assms(1)] filteredRecords_def)
qed

subsection \<open>Records with a falsy year\<close>

lemma year_of_option:
  assumes "toNumber (Str selected) \<in> set (years recs)"
  obtains r where "r \<in> set recs" "truthy (obj_get r ''year'')"
    "toNumber (obj_get r ''year'') = toNumber (Str selected)"
  using assms by (auto simp: set_years)

text \<open>
  C10. A record whose year is falsy (0, missing, the empty string, \<open>null\<close>) adds nothing
  to the year selector, the falsy values being filtered out before the set is built
  and the years converted; under the filter \<open>All\<close> it is among the records aggregated.
  No year that the selector offers singles it out: the records shown for an offered
  year are none at all or include a record whose year is not falsy; and when the years
  that are not falsy are numbers, the record is shown for no offered year. The total of
  a category is the sum over the records that the filter lets through, a falsy count
  being 0: under \<open>All\<close> the count of every record is added to the running total at its
  place in the list, whatever its year; for whole counts whose magnitudes add up to at
  most \<open>2 ^ 53\<close> the total is the sum over the other records plus the record's count.
\<close>

theorem falsy_year_records:
  "\<not> truthy (Num (Fin 0)) \<and> \<not> truthy Undefined \<and> \<not> truthy (Str []) \<and> \<not> truthy Null
   \<and> (\<not> truthy (obj_get r ''year'') \<longrightarrow>
        years (before @ r # after) = years (before @ after)
        \<and> r \<in> set (filteredRecords (before @ r # after) ''All''))
   \<and> filteredRecords recs ''All'' = recs
   \<and> (selected \<noteq> ''All'' \<and> toNumber (Str selected) \<in> set (years recs) \<longrightarrow>
        filteredRecords recs selected = []
        \<or> (\<exists>r' \<in> set (filteredRecords recs selected). truthy (obj_get r' ''year'')))
   \<and> ((\<forall>r' \<in> set recs. truthy (obj_get r' ''year'') \<longrightarrow> (\<exists>n. obj_get r' ''year'' = Num n))
        \<and> \<not> truthy (obj_get r ''year'') \<and> selected \<noteq> ''All''
        \<and> toNumber (Str selected) \<in> set (years recs) \<longrightarrow>
        r \<notin> set (filteredRecords recs selected))
   \<and> (f \<in> set civilStatusFields \<longrightarrow>
        obj_get (totals recs selected) f
          = foldl (\<lambda>sum x. js_add sum (js_or (obj_get x f) (Num (Fin 0)))) (Num (Fin 0))
              (filteredRecords recs selected)
        \<and> obj_get (totals (before @ r # after) ''All'') f
            = foldl (\<lambda>sum x. js_add sum (js_or (obj_get x f) (Num (Fin 0))))
                (js_add (obj_get (totals before ''All'') f) (js_or (obj_get r f) (Num (Fin 0))))
                after)
   \<and> (f \<in> set civilStatusFields
        \<and> (\<forall>x \<in> set (before @ r # after).
              truthy (obj_get x f) \<longrightarrow> (\<exists>k::int. obj_get x f = Num (Fin (of_int k))))
        \<and> sum_list (map (\<lambda>x. \<bar>count_of x f\<bar>) (before @ r # after)) \<le> 2 ^ 53 \<longrightarrow>
        obj_get (totals (before @ r # after) ''All'') f
          = Num (Fin (sum_list (map (\<lambda>x. count_of x f) (before @ after)) + count_of r f))
        \<and> obj_get (totals (before @ after) ''All'') f
            = Num (Fin (sum_list (map (\<lambda>x. count_of x f) (before @ after)))))"
proof -
  have excluded: "\<not> truthy (obj_get r ''year'') \<longrightarrow>
        years (before @ r # after) = years (before @ after)
        \<and> r \<in> set (filteredRecords (before @ r # after) ''All'')"
    by (simp add: years_def filteredRecords_def)
  have all: "filteredRecords recs ''All'' = recs"
    by (simp add: filteredRecords_def)
  have isolated: "filteredRecords recs selected = []
        \<or> (\<exists>r' \<in> set (filteredRecords recs selected). truthy (obj_get r' ''year''))"
    if "selected \<noteq> ''All''" and opt: "toNumber (Str selected) \<in> set (years recs)"
  proof (cases "toNumber (Str selected) = NaN")
    case True
    then have "filteredRecords recs selected = []"
      using that by (simp add: filteredRecords_def num_strict_eq_def)
    then show ?thesis by simp
  next
    case False
    from opt obtain r' where "r' \<in> set recs" "truthy (obj_get r' ''year'')"
      "toNumber (obj_get r' ''year'') = toNumber (Str selected)"
      by (rule year_of_option)
    with False that have "r' \<in> set (filteredRecords recs selected)"
      by (simp add: filteredRecords_def num_strict_eq_def)
    with \<open>truthy (obj_get r' ''year'')\<close> show ?thesis by blast
  qed
  have hidden: "r \<notin> set (filteredRecords recs selected)"
    if numbers: "\<forall>r' \<in> set recs. truthy (obj_get r' ''year'') \<longrightarrow> (\<exists>n. obj_get r' ''year'' = Num n)"
      and falsy: "\<not> truthy (obj_get r ''year'')" and "selected \<noteq> ''All''"
      and opt: "toNumber (Str selected) \<in> set (years recs)"
  proof -
    from opt obtain r' where r': "r' \<in> set recs" "truthy (obj_get r' ''year'')"
      "toNumber (obj_get r' ''year'') = toNumber (Str selected)"
      by (rule year_of_option)
    with numbers obtain n where "obj_get r' ''year'' = Num n" by blast
    with r' have "toNumber (Str selected) \<noteq> NaN" "toNumber (Str selected) \<noteq> Fin 0"
      by auto
    moreover from falsy have "toNumber (obj_get r ''year'') = NaN
        \<or> toNumber (obj_get r ''year'') = Fin 0"
      by (rule falsy_number)
    ultimately show ?thesis
      using that by (auto simp: filteredRecords_def num_strict_eq_def)
  qed
  have added: "obj_get (totals recs selected) f
          = foldl (\<lambda>sum x. js_add sum (js_or (obj_get x f) (Num (Fin 0)))) (Num (Fin 0))
              (filteredRecords recs selected)
        \<and> obj_get (totals (before @ r # after) ''All'') f
            = foldl (\<lambda>sum x. js_add sum (js_or (obj_get x f) (Num (Fin 0))))
                (js_add (obj_get (totals before ''All'') f) (js_or (obj_get r f) (Num (Fin 0))))
                after"
    if "f \<in> set civilStatusFields"
    by (simp add: totals_field [OF that] filteredRecords_def)
  have summed: "obj_get (totals (before @ r # after) ''All'') f
          = Num (Fin (sum_list (map (\<lambda>x. count_of x f) (before @ after)) + count_of r f))
        \<and> obj_get (totals (before @ after) ''All'') f
            = Num (Fin (sum_list (map (\<lambda>x. count_of x f) (before @ after))))"
    if "f \<in> set civilStatusFields"
      and "\<forall>x \<in> set (before @ r # after).
              truthy (obj_get x f) \<longrightarrow> (\<exists>k::int. obj_get x f = Num (Fin (of_int k)))"
  proof -
    from that(2) have "\<forall>x \<in> set (before @ after).
        truthy (obj_get x f) \<longrightarrow> (\<exists>k::int. obj_get x f = Num (Fin (of_int k)))"
      by simp
    with that show ?thesis
      by (simp add: totals_all_sum)
  qed
  from excluded all isolated hidden added summed show ?thesis by simp
qed

lemma year_mix_singles:
  "civilStatusFields ! 0 = ''single''"
  "map (\<lambda>x. count_of x ''single'') year_mix = [80, 100, 5, 7]"
  "map (\<lambda>x. obj_get x ''single'') year_mix
     = [Num (Fin (of_int 80)), Num (Fin (of_int 100)), Num (Fin (of_int 5)), Num (Fin (of_int 7))]"
  "take 3 year_mix @ year_mix ! 3 # [] = year_mix"
  by (simp_all add: year_mix_def count_of_def obj_get_def civilStatusFields_def)

theorem falsy_year_records_witness:
  "\<not> truthy (obj_get (year_mix ! 3) ''year'')
   \<and> years (take 3 year_mix @ year_mix ! 3 # []) = years (take 3 year_mix @ [])
   \<and> year_mix ! 3 \<in> set (filteredRecords (take 3 year_mix @ year_mix ! 3 # []) ''All'')
   \<and> toNumber (Str ''2019'') \<in> set (years year_mix)
   \<and> filteredRecords year_mix ''2019'' = [year_mix ! 1]
   \<and> truthy (obj_get (year_mix ! 1) ''year'')
   \<and> year_mix ! 3 \<notin> set (filteredRecords year_mix ''2019'')
   \<and> obj_get (totals (take 3 year_mix @ year_mix ! 3 # []) ''All'') ''single'' = Num (Fin 192)
   \<and> obj_get (totals (take 3 year_mix @ []) ''All'') ''single'' = Num (Fin 185)
   \<and> obj_get (totals year_mix ''2019'') ''single'' = Num (Fin 100)"
proof -
  have falsy: "\<not> truthy (obj_get (year_mix ! 3) ''year'')"
    by (simp add: year_mix_def obj_get_def)
  have offered: "''2019'' \<noteq> ''All''" "toNumber (Str ''2019'') \<in> set (years year_mix)"
    by (simp_all add: year_mix_years number_parse_defs)
  have numbers: "\<forall>r' \<in> set year_mix. truthy (obj_get r' ''year'') \<longrightarrow> (\<exists>n. obj_get r' ''year'' = Num n)"
    by (simp add: year_mix_def obj_get_def)
  have shown: "filteredRecords year_mix ''2019'' = [year_mix ! 1]"
    "truthy (obj_get (year_mix ! 1) ''year'')"
    by (simp_all add: filteredRecords_def year_mix_def obj_get_def num_strict_eq_def
        number_parse_defs)
  have single: "''single'' \<in> set civilStatusFields"
    by (simp add: civilStatusFields_def)
  have whole: "\<forall>x \<in> set (take 3 year_mix @ year_mix ! 3 # []).
      truthy (obj_get x ''single'') \<longrightarrow> (\<exists>k::int. obj_get x ''single'' = Num (Fin (of_int k)))"
  proof
    fix x
    assume "x \<in> set (take 3 year_mix @ year_mix ! 3 # [])"
    then have "obj_get x ''single'' \<in> set (map (\<lambda>x. obj_get x ''single'') year_mix)"
      by (simp only: year_mix_singles(4)) simp
    then show "truthy (obj_get x ''single'') \<longrightarrow>
        (\<exists>k::int. obj_get x ''single'' = Num (Fin (of_int k)))"
      unfolding year_mix_singles(3) by auto
  qed
  have counts: "map (\<lambda>x. count_of x ''single'') (take 3 year_mix @ year_mix ! 3 # [])
      = [80, 100, 5, 7]"
    "map (\<lambda>x. count_of x ''single'') (take 3 year_mix @ []) = [80, 100, 5]"
    "count_of (year_mix ! 3) ''single'' = 7"
    by (simp_all add: year_mix_def count_of_def obj_get_def)
  have small: "sum_list (map (\<lambda>x. \<bar>count_of x ''single''\<bar>) (take 3 year_mix @ year_mix ! 3 # []))
      \<le> 2 ^ 53"
    by (simp add: year_mix_def count_of_def obj_get_def)
  have only: "foldl (\<lambda>sum x. js_add sum (js_or (obj_get x ''single'') (Num (Fin 0)))) (Num (Fin 0))
      [year_mix ! 1] = Num (Fin 100)"
    by (simp add: year_mix_def obj_get_def js_add_def js_or_def)
  note inst = falsy_year_records [of "year_mix ! 3" "take 3 year_mix" "[]" year_mix "''2019''"
      "''single''"]
  from inst falsy offered numbers shown
  have a: "years (take 3 year_mix @ year_mix ! 3 # []) = years (take 3 year_mix @ [])
     \<and> year_mix ! 3 \<in> set (filteredRecords (take 3 year_mix @ year_mix ! 3 # []) ''All'')
     \<and> year_mix ! 3 \<notin> set (filteredRecords year_mix ''2019'')"
    by blast
  from inst single whole small
  have "obj_get (totals (take 3 year_mix @ year_mix ! 3 # []) ''All'') ''single''
          = Num (Fin (sum_list (map (\<lambda>x. count_of x ''single'') (take 3 year_mix @ []))
              + count_of (year_mix ! 3) ''single''))
        \<and> obj_get (totals (take 3 year_mix @ []) ''All'') ''single''
            = Num (Fin (sum_list (map (\<lambda>x. count_of x ''single'') (take 3 year_mix @ []))))"
    by blast
  then have b: "obj_get (totals (take 3 year_mix @ year_mix ! 3 # []) ''All'') ''single''
      = Num (Fin 192)"
    "obj_get (totals (take 3 year_mix @ []) ''All'') ''single'' = Num (Fin 185)"
    unfolding counts by simp_all
  from inst single
  have "obj_get (totals year_mix ''2019'') ''single''
      = foldl (\<lambda>sum x. js_add sum (js_or (obj_get x ''single'') (Num (Fin 0)))) (Num (Fin 0))
          (filteredRecords year_mix ''2019'')"
    by blast
  then have c: "obj_get (totals year_mix ''2019'') ''single'' = Num (Fin 100)"
    by (simp only: shown only)
  from falsy offered shown a b c show ?thesis by blast
qed

subsection \<open>Percentages of the destination page\<close>

lemma country_total_sum:
  "\<forall>r \<in> set rs. truthy (obj_get r c) \<longrightarrow> (\<exists>q. obj_get r c = Num (Fin q)) \<Longrightarrow>
   country_total rs c = Num (Fin (spec_total rs c))"
  using country_total_sum_gen [of rs c 0] by (simp add: country_total_def spec_total_def)

lemma grand_total_sum_gen:
  "\<forall>c \<in> set cs. \<forall>r \<in> set rs. truthy (obj_get r c) \<longrightarrow> (\<exists>q. obj_get r c = Num (Fin q)) \<Longrightarrow>
   foldl (\<lambda>total c. js_add total (country_total rs c)) (Num (Fin a)) cs
     = Num (Fin (a + sum_list (map (spec_total rs) cs)))"
proof (induction cs arbitrary: a)
  case Nil
  then show ?case by simp
next
  case (Cons c cs)
  then show ?case by (simp add: country_total_sum js_add_def add.assoc)
qed

lemma filtered_subset: "set (filteredRecords recs selected) \<subseteq> set recs"
  by (auto simp: filteredRecords_def)

lemma length_show_nat: "0 < length (show_nat n)"
  by (induction n rule: show_nat.induct) (subst show_nat.simps, simp)

lemma show_nat_digit: "n < 10 \<Longrightarrow> show_nat n = [char_of (48 + n)]"
  by (subst show_nat.simps) simp

lemma show_nat_split: "show_nat n = (if n < 10 then [] else show_nat (n div 10)) @ show_nat (n mod 10)"
  by (subst show_nat.simps) (simp add: show_nat_digit)

lemma zero_char: "char_of (48 :: nat) = CHR ''0''"
  by code_simp

lemma toFixed1_digits:
  assumes "\<bar>q\<bar> < 10 ^ 21"
  shows "toFixed1 (Fin q)
    = (if q < 0 then ''-'' else []) @ show_nat (tenths \<bar>q\<bar> div 10) @ ''.''
      @ show_nat (tenths \<bar>q\<bar> mod 10)"
proof (cases "tenths \<bar>q\<bar> < 10")
  case True
  then show ?thesis using assms
    by (simp add: toFixed1_def show_nat_digit Let_def zero_char)
next
  case False
  have parts: "show_nat (tenths \<bar>q\<bar>)
      = show_nat (tenths \<bar>q\<bar> div 10) @ show_nat (tenths \<bar>q\<bar> mod 10)"
    using False by (subst show_nat_split) simp
  have hi: "0 < length (show_nat (tenths \<bar>q\<bar> div 10))"
    by (rule length_show_nat)
  have lo: "length (show_nat (tenths \<bar>q\<bar> mod 10)) = 1"
    by (simp add: show_nat_digit)
  show ?thesis using assms hi
    by (simp add: toFixed1_def Let_def parts lo)
qed

lemma totalEmigrants_sum:
  assumes "\<forall>r \<in> set recs. \<forall>c \<in> set countries.
             truthy (obj_get r c) \<longrightarrow> (\<exists>q. obj_get r c = Num (Fin q))"
  shows "totalEmigrants recs selected
    = Num (Fin (spec_grandTotal (filteredRecords recs selected)))"
proof -
  have "\<forall>c \<in> set countries. \<forall>r \<in> set (filteredRecords recs selected).
          truthy (obj_get r c) \<longrightarrow> (\<exists>q. obj_get r c = Num (Fin q))"
    using assms filtered_subset [of recs selected] by blast
  from grand_total_sum_gen [OF this, of 0] show ?thesis
    by (simp add: totalEmigrants_def spec_grandTotal_def)
qed

lemma percentage_numeric:
  assumes "\<forall>r \<in> set recs. \<forall>c \<in> set countries.
             truthy (obj_get r c) \<longrightarrow> (\<exists>q. obj_get r c = Num (Fin q))"
    and "country \<in> set countries"
  shows "percentage recs selected country
    = (if 0 < spec_grandTotal (filteredRecords recs selected)
       then Str (toFixed1
                   (num_mul
                      (num_div (Fin (spec_total (filteredRecords recs selected) country))
                         (Fin (spec_grandTotal (filteredRecords recs selected))))
                      (Fin 100)))
       else Num (Fin 0))"
proof -
  have "\<forall>r \<in> set (filteredRecords recs selected).
          truthy (obj_get r country) \<longrightarrow> (\<exists>q. obj_get r country = Num (Fin q))"
    using assms filtered_subset [of recs selected] by blast
  then have total: "country_total (filteredRecords recs selected) country
      = Num (Fin (spec_total (filteredRecords recs selected) country))"
    by (rule country_total_sum)
  show ?thesis
    by (simp add: percentage_def total totalEmigrants_sum [OF assms(1)] num_gt_def
        del: num_mul.simps num_div.simps)
qed

text \<open>Whole counts have whole totals, bounded by the sum of the magnitudes.\<close>

lemma count_whole:
  assumes "truthy (obj_get r c) \<longrightarrow> (\<exists>k::int. obj_get r c = Num (Fin (of_int k)))"
  shows "count_of r c \<in> \<int>"
proof (cases "truthy (obj_get r c)")
  case True
  with assms obtain k :: int where "obj_get r c = Num (Fin (of_int k))" by blast
  then show ?thesis by (simp add: count_of_def)
next
  case False
  then have "count_of r c = 0"
    by (cases "obj_get r c" rule: jsval.exhaust) (auto simp: count_of_def split: jsnum.splits)
  then show ?thesis by simp
qed

lemma sum_whole: "\<forall>x \<in> set xs. f x \<in> \<int> \<Longrightarrow> sum_list (map f xs) \<in> (\<int> :: rat set)"
  by (induction xs) simp_all

lemma sum_abs_le: "\<bar>sum_list (map f xs)\<bar> \<le> sum_list (map (\<lambda>x. \<bar>f x :: rat\<bar>) xs)"
proof (induction xs)
  case Nil
  then show ?case by simp
next
  case (Cons x xs)
  then show ?case by simp
qed

lemma sum_nonneg: "(\<And>x. 0 \<le> g x) \<Longrightarrow> 0 \<le> sum_list (map g xs :: rat list)"
  by (induction xs) simp_all

lemma member_le_sum:
  assumes "\<And>x. 0 \<le> g x" and "c \<in> set cs"
  shows "g c \<le> sum_list (map g cs :: rat list)"
  using assms(2)
proof (induction cs)
  case Nil
  then show ?case by simp
next
  case (Cons d cs)
  from assms(1) have "0 \<le> g d" "0 \<le> sum_list (map g cs)"
    by (simp_all add: sum_nonneg)
  with Cons show ?case by auto
qed

lemma spec_total_bound:
  assumes "c \<in> set countries"
  shows "\<bar>spec_total rs c\<bar> \<le> spec_magnitude rs"
proof -
  have "\<bar>spec_total rs c\<bar> \<le> sum_list (map (\<lambda>r. \<bar>count_of r c\<bar>) rs)"
    unfolding spec_total_def by (rule sum_abs_le)
  also have "\<dots> \<le> spec_magnitude rs"
    unfolding spec_magnitude_def
    by (rule member_le_sum [where g = "\<lambda>c. sum_list (map (\<lambda>r. \<bar>count_of r c\<bar>) rs)", OF _ assms])
       (simp add: sum_nonneg)
  finally show ?thesis .
qed

lemma spec_grandTotal_bound: "\<bar>spec_grandTotal rs\<bar> \<le> spec_magnitude rs"
proof -
  have "\<bar>spec_grandTotal rs\<bar> \<le> sum_list (map (\<lambda>c. \<bar>spec_total rs c\<bar>) countries)"
    unfolding spec_grandTotal_def by (rule sum_abs_le)
  also have "\<dots> \<le> spec_magnitude rs"
    unfolding spec_magnitude_def spec_total_def
    by (rule sum_list_mono) (rule sum_abs_le)
  finally show ?thesis .
qed

text \<open>The rounding to binary64: within a relative error of \<open>2 ^ -53\<close> wherever the value
  is neither subnormal nor too large.\<close>

lemma round_half_even_close: "\<bar>of_int (round_half_even m) - m\<bar> \<le> 1 / 2"
proof -
  have "of_int \<lfloor>m\<rfloor> \<le> m" "m < of_int \<lfloor>m\<rfloor> + 1" by linarith+
  then show ?thesis
    unfolding round_half_even_def Let_def by (simp split: if_splits; linarith)
qed


lemma bitlen_powi:
  assumes "0 < x"
  shows "2 powi (bitlen x - 1) \<le> (of_int x :: rat)" "(of_int x :: rat) < 2 powi bitlen x"
proof -
  from bitlen_bounds [OF assms]
  have lo: "2 ^ nat (bitlen x - 1) \<le> x" and hi: "x < 2 ^ nat (bitlen x)" by simp_all
  have "nat (bitlen x) \<noteq> 0"
  proof
    assume "nat (bitlen x) = 0"
    with hi assms show False by simp
  qed
  then have pos: "0 < bitlen x" by simp
  from lo have "(of_int (2 ^ nat (bitlen x - 1)) :: rat) \<le> of_int x"
    by (simp only: of_int_le_iff)
  with pos show "2 powi (bitlen x - 1) \<le> (of_int x :: rat)"
    by (simp add: power_int_def)
  from hi have "(of_int x :: rat) < of_int (2 ^ nat (bitlen x))"
    by (simp only: of_int_less_iff)
  with pos show "(of_int x :: rat) < 2 powi bitlen x"
    by (simp add: power_int_def)
qed

lemma floor_log2_bounds:
  assumes "0 < a"
  shows "2 powi floor_log2 a \<le> a" "a < 2 powi (floor_log2 a + 1)"
proof -
  obtain n d where nd: "quotient_of a = (n, d)" by (cases "quotient_of a")
  then have d: "0 < d" and a: "a = of_int n / of_int d"
    by (rule quotient_of_denom_pos, rule quotient_of_div)
  with assms have n: "0 < n" by (simp add: zero_less_divide_iff)
  define k where "k = bitlen n - bitlen d"
  have "2 powi (bitlen n - 1) / 2 powi bitlen d \<le> (of_int n :: rat) / of_int d"
    using bitlen_powi [OF n] bitlen_powi [OF d] d n by (intro frac_le) simp_all
  then have lo: "2 powi (k - 1) \<le> a"
    by (simp add: a k_def power_int_diff)
  have "(of_int n :: rat) / of_int d < 2 powi bitlen n / 2 powi (bitlen d - 1)"
    using bitlen_powi [OF n] bitlen_powi [OF d] n by (intro frac_less) simp_all
  then have hi: "a < 2 powi (k + 1)"
    by (simp add: a k_def power_int_diff power_int_add)
  have fl: "floor_log2 a = (if a < 2 powi k then k - 1 else k)"
    by (simp add: floor_log2_def nd k_def)
  show "2 powi floor_log2 a \<le> a" using lo by (simp add: fl)
  show "a < 2 powi (floor_log2 a + 1)" using hi by (simp add: fl)
qed

lemma round_double_error:
  assumes "2 powi (- 1022) \<le> \<bar>q\<bar>" and "\<bar>q\<bar> \<le> 2 ^ 1000"
  obtains x where "round_double q = Fin x" "\<bar>x - q\<bar> \<le> \<bar>q\<bar> / 2 ^ 53" "(x < 0) = (q < 0)"
    "(x = 0) = (q = 0)"
proof -
  define a where "a = \<bar>q\<bar>"
  have "(0 :: rat) < 2 powi (- 1022)" by simp
  with assms(1) have pos: "0 < a" unfolding a_def by linarith
  define e where "e = ulp_exponent a"
  define p where "p = (2 :: rat) powi e"
  define n where "n = round_half_even (a / p)"
  have p: "0 < p" by (simp add: p_def)
  have "2 powi (e + 52) \<le> a"
  proof (cases "- 1074 \<le> floor_log2 a - 52")
    case True
    then have "e + 52 = floor_log2 a" by (simp add: e_def ulp_exponent_def)
    then show ?thesis using floor_log2_bounds(1) [OF pos] by simp
  next
    case False
    then have "e + 52 = - 1022" by (simp add: e_def ulp_exponent_def)
    with assms(1) show ?thesis unfolding a_def by (simp only:)
  qed
  then have big: "p * 2 ^ 52 \<le> a"
    by (simp add: p_def power_int_add)
  have "\<bar>of_int n - a / p\<bar> \<le> 1 / 2"
    unfolding n_def by (rule round_half_even_close)
  then have "\<bar>of_int n - a / p\<bar> * p \<le> 1 / 2 * p"
    using p by (intro mult_right_mono) simp_all
  moreover have "\<bar>of_int n - a / p\<bar> * p = \<bar>of_int n * p - a\<bar>"
    using p by (simp add: abs_mult [symmetric] abs_of_pos [OF p] field_simps)
  ultimately have near: "\<bar>of_int n * p - a\<bar> \<le> p / 2" by simp
  from big have half: "p / 2 \<le> a / 2 ^ 53" by simp
  from near half have err: "\<bar>of_int n * p - a\<bar> \<le> a / 2 ^ 53" by linarith
  have "a / 2 ^ 53 < a" using pos by simp
  with err have x_pos: "0 < of_int n * p" by linarith
  have "a / 2 ^ 53 \<le> a" using pos by simp
  with err have "of_int n * p \<le> 2 * a" by linarith
  also have "\<dots> \<le> 2 * 2 ^ 1000" using assms(2) by (simp add: a_def)
  also have "\<dots> < (2 :: rat) powi 1024" by simp
  finally have small: "\<not> 2 powi 1024 \<le> of_int n * p" by simp
  have q0: "q \<noteq> 0" using pos by (simp add: a_def)
  have rounded: "round_double q = Fin (if q < 0 then - (of_int n * p) else of_int n * p)"
    using q0 small
    by (simp add: round_double_def Let_def a_def [symmetric] e_def [symmetric]
        p_def [symmetric] n_def [symmetric])
  show ?thesis
  proof (rule that [OF rounded])
    show "\<bar>(if q < 0 then - (of_int n * p) else of_int n * p) - q\<bar> \<le> \<bar>q\<bar> / 2 ^ 53"
      using err by (auto simp: a_def abs_if split: if_splits)
    show "((if q < 0 then - (of_int n * p) else of_int n * p) < 0) = (q < 0)"
      using x_pos by auto
    show "((if q < 0 then - (of_int n * p) else of_int n * p) = 0) = (q = 0)"
      using x_pos q0 by auto
  qed
qed


lemma double_percent:
  fixes T G :: int
  assumes "0 < G" and "G \<le> 10 ^ 12" and "\<bar>T\<bar> \<le> 10 ^ 12"
  obtains x where
    "num_mul (num_div (Fin (of_int T)) (Fin (of_int G))) (Fin 100) = Fin x"
    "\<bar>x - 100 * of_int T / of_int G\<bar>
       \<le> 100 * \<bar>of_int T\<bar> / of_int G * (2 / 2 ^ 53 + 1 / 2 ^ 106)"
    "(x < 0) = (T < 0)" "\<bar>x\<bar> < 10 ^ 21"
proof (cases "T = 0")
  case True
  have "num_mul (num_div (Fin (of_int T)) (Fin (of_int G))) (Fin 100) = Fin 0"
    using assms(1) True by (simp add: round_double_def)
  then show ?thesis
    by (rule that) (simp_all add: True)
next
  case False
  define q :: rat where "q = of_int T / of_int G"
  define u :: rat where "u = 1 / 2 ^ 53"
  have G: "(0 :: rat) < of_int G" "(of_int G :: rat) \<le> 10 ^ 12"
    using assms(1, 2) by (simp, metis of_int_le_iff of_int_numeral of_int_power)
  have T: "(1 :: rat) \<le> \<bar>of_int T\<bar>" "\<bar>of_int T :: rat\<bar> \<le> 10 ^ 12"
  proof -
    from False have "1 \<le> \<bar>T\<bar>" by simp
    then have "(of_int 1 :: rat) \<le> of_int \<bar>T\<bar>" by (simp only: of_int_le_iff)
    then show "(1 :: rat) \<le> \<bar>of_int T\<bar>" by simp
    from assms(3) have "(of_int \<bar>T\<bar> :: rat) \<le> of_int (10 ^ 12)" by (simp only: of_int_le_iff)
    then show "\<bar>of_int T :: rat\<bar> \<le> 10 ^ 12" by simp
  qed
  have absq: "\<bar>q\<bar> = \<bar>of_int T\<bar> / of_int G"
    using G by (simp add: q_def abs_of_pos)
  have "1 / 10 ^ 12 \<le> \<bar>of_int T :: rat\<bar> / of_int G"
    using T G by (intro frac_le) simp_all
  then have q_lo: "1 / 10 ^ 12 \<le> \<bar>q\<bar>" by (simp only: absq)
  have "\<bar>of_int T :: rat\<bar> / of_int G \<le> 10 ^ 12 / 1"
    using T G assms(1) by (intro frac_le) simp_all
  then have q_hi: "\<bar>q\<bar> \<le> 10 ^ 12" by (simp add: absq)
  define lo hi :: rat where "lo = 1 / 10 ^ 12" and "hi = 10 ^ 12"
  have lo: "0 < lo" "2 powi (- 1022) \<le> lo"
    by (simp_all add: lo_def power_int_minus)
  have hi: "200 * hi \<le> 2 ^ 1000" "400 * hi < 10 ^ 21"
    by (simp_all add: hi_def)
  have q_lo': "lo \<le> \<bar>q\<bar>" and q_hi': "\<bar>q\<bar> \<le> hi"
    using q_lo q_hi by (simp_all add: lo_def hi_def)
  have "2 powi (- 1022) \<le> \<bar>q\<bar>" "\<bar>q\<bar> \<le> 2 ^ 1000"
    using lo hi q_lo' q_hi' by linarith+
  then obtain x1 where x1: "round_double q = Fin x1" "\<bar>x1 - q\<bar> \<le> \<bar>q\<bar> / 2 ^ 53"
    "(x1 < 0) = (q < 0)" "(x1 = 0) = (q = 0)"
    by (rule round_double_error)
  from x1(2) have e1: "\<bar>x1 - q\<bar> \<le> \<bar>q\<bar> * u" by (simp add: u_def)
  have u: "0 < u" "u \<le> 1 / 2" by (simp_all add: u_def)
  have "\<bar>q\<bar> * u \<le> \<bar>q\<bar> * (1 / 2)"
    using u by (intro mult_left_mono) simp_all
  with e1 have x1_lo: "\<bar>q\<bar> / 2 \<le> \<bar>x1\<bar>" and x1_hi: "\<bar>x1\<bar> \<le> 2 * \<bar>q\<bar>"
    by linarith+
  have y_abs: "\<bar>x1 * 100\<bar> = 100 * \<bar>x1\<bar>" by (simp add: abs_mult)
  have "2 powi (- 1022) \<le> \<bar>x1 * 100\<bar>" "\<bar>x1 * 100\<bar> \<le> 2 ^ 1000"
    using lo hi q_lo' q_hi' x1_lo x1_hi unfolding y_abs by linarith+
  then obtain x2 where x2: "round_double (x1 * 100) = Fin x2"
    "\<bar>x2 - x1 * 100\<bar> \<le> \<bar>x1 * 100\<bar> / 2 ^ 53"
    "(x2 < 0) = (x1 * 100 < 0)" "(x2 = 0) = (x1 * 100 = 0)"
    by (rule round_double_error)
  from x2(2) have e2: "\<bar>x2 - x1 * 100\<bar> \<le> 100 * \<bar>x1\<bar> * u"
    by (simp add: u_def y_abs)
  have "\<bar>x1\<bar> \<le> \<bar>q\<bar> + \<bar>q\<bar> * u" using e1 by linarith
  then have "100 * \<bar>x1\<bar> * u \<le> 100 * (\<bar>q\<bar> + \<bar>q\<bar> * u) * u"
    using u by (intro mult_right_mono mult_left_mono) simp_all
  with e1 e2 have "\<bar>x2 - 100 * q\<bar> \<le> 100 * (\<bar>q\<bar> + \<bar>q\<bar> * u) * u + 100 * (\<bar>q\<bar> * u)"
    by linarith
  also have "\<dots> = 100 * \<bar>q\<bar> * (2 * u + u * u)"
    by (simp add: algebra_simps)
  also have "\<dots> = 100 * \<bar>of_int T\<bar> / of_int G * (2 / 2 ^ 53 + 1 / 2 ^ 106)"
    by (simp add: absq u_def)
  finally have err: "\<bar>x2 - 100 * of_int T / of_int G\<bar>
       \<le> 100 * \<bar>of_int T\<bar> / of_int G * (2 / 2 ^ 53 + 1 / 2 ^ 106)"
    by (simp add: q_def)
  have "(q < 0) = (T < 0)"
    using G by (simp add: q_def divide_less_0_iff)
  with x1(3) x2(3) have sign: "(x2 < 0) = (T < 0)"
    by (simp add: mult_less_0_iff)
  have "\<bar>x2\<bar> \<le> \<bar>x1 * 100\<bar> + \<bar>x1 * 100\<bar> / 2 ^ 53" using x2(2) by linarith
  also have "\<dots> \<le> 2 * \<bar>x1 * 100\<bar>" by simp
  also have "\<dots> \<le> 400 * \<bar>q\<bar>" using x1_hi by (simp add: y_abs)
  also have "\<dots> < 10 ^ 21" using q_hi' hi by linarith
  finally have bound: "\<bar>x2\<bar> < 10 ^ 21" .
  have "num_mul (num_div (Fin (of_int T)) (Fin (of_int G))) (Fin 100) = Fin x2"
    using G x1(1) x2(1) by (simp add: q_def)
  then show ?thesis using err sign bound by (rule that)
qed


lemma shown_tenths:
  fixes T G :: int and x :: rat
  assumes "0 < G" and "\<bar>T\<bar> \<le> 10 ^ 12"
    and "\<bar>x - 100 * of_int T / of_int G\<bar>
       \<le> 100 * \<bar>of_int T\<bar> / of_int G * (2 / 2 ^ 53 + 1 / 2 ^ 106)"
  shows "\<bar>(of_nat (tenths \<bar>x\<bar>) :: rat) - 1000 * \<bar>of_int T\<bar> / of_int G\<bar> \<le> 1 / 2"
proof -
  define g t eps n :: rat where "g = of_int G" and "t = \<bar>of_int T\<bar>"
    and "eps = 2 / 2 ^ 53 + 1 / 2 ^ 106" and "n = of_nat (tenths \<bar>x\<bar>)"
  define D where "D = 2 * G * int (tenths \<bar>x\<bar>) - 2000 * \<bar>T\<bar>"
  have g: "0 < g" using assms(1) by (simp add: g_def)
  have t: "0 \<le> t" "t \<le> 10 ^ 12"
  proof -
    show "0 \<le> t" by (simp add: t_def)
    from assms(2) have "(of_int \<bar>T\<bar> :: rat) \<le> of_int (10 ^ 12)" by (simp only: of_int_le_iff)
    then show "t \<le> 10 ^ 12" by (simp add: t_def)
  qed
  have "0 \<le> \<lfloor>\<bar>x\<bar> * 10 + 1 / 2\<rfloor>" by simp
  then have n_floor: "n = of_int \<lfloor>\<bar>x\<bar> * 10 + 1 / 2\<rfloor>"
    by (simp add: n_def tenths_def)
  have n_hi: "n \<le> \<bar>x\<bar> * 10 + 1 / 2" and n_lo: "\<bar>x\<bar> * 10 + 1 / 2 < n + 1"
    unfolding n_floor by linarith+
  have "\<bar>100 * of_int T / of_int G :: rat\<bar> = 100 * t / g"
    using g by (simp add: t_def g_def abs_of_pos)
  then have "\<bar>\<bar>x\<bar> - 100 * t / g\<bar> \<le> \<bar>x - 100 * of_int T / of_int G\<bar>"
    using abs_triangle_ineq3 [of x "100 * of_int T / of_int G"] by simp
  with assms(3) have near: "\<bar>\<bar>x\<bar> - 100 * t / g\<bar> \<le> 100 * t / g * eps"
    by (simp add: t_def g_def eps_def)
  have "1000 * t * eps \<le> 1000 * 10 ^ 12 * eps"
    using t by (intro mult_right_mono mult_left_mono) (simp_all add: eps_def)
  also have "\<dots> < 1 / 2" by (simp add: eps_def)
  finally have "1000 * t * eps < 1 / 2" .
  then have "1000 * t * eps / g < 1 / 2 / g"
    using g by (rule divide_strict_right_mono)
  moreover have "10 * (100 * t / g * eps) = 1000 * t * eps / g" by simp
  ultimately have small: "10 * (100 * t / g * eps) < 1 / 2 / g" by simp
  from near small n_hi n_lo have "\<bar>n - 1000 * t / g\<bar> < 1 / 2 + 1 / 2 / g"
    by (simp add: abs_le_iff abs_less_iff)
  then have "\<bar>n - 1000 * t / g\<bar> * (2 * g) < (1 / 2 + 1 / 2 / g) * (2 * g)"
    using g by (intro mult_strict_right_mono) simp_all
  moreover have "\<bar>n - 1000 * t / g\<bar> * (2 * g) = \<bar>2 * g * n - 2000 * t\<bar>"
  proof -
    have "\<bar>n - 1000 * t / g\<bar> * (2 * g) = \<bar>(n - 1000 * t / g) * (2 * g)\<bar>"
      using g by (simp add: abs_mult abs_of_pos)
    also have "(n - 1000 * t / g) * (2 * g) = 2 * g * n - 2000 * t"
      using g by (simp add: field_simps)
    finally show ?thesis .
  qed
  moreover have "(1 / 2 + 1 / 2 / g) * (2 * g) = g + 1"
    using g by (simp add: field_simps)
  ultimately have lt: "\<bar>2 * g * n - 2000 * t\<bar> < g + 1" by simp
  have D: "(of_int D :: rat) = 2 * g * n - 2000 * t"
    by (simp add: D_def g_def n_def t_def)
  from lt have "(of_int \<bar>D\<bar> :: rat) < of_int (G + 1)"
    by (simp add: D g_def)
  then have "\<bar>D\<bar> < G + 1" by (simp only: of_int_less_iff)
  then have "\<bar>D\<bar> \<le> G" by simp
  then have "(of_int \<bar>D\<bar> :: rat) \<le> of_int G" by (simp only: of_int_le_iff)
  then have le: "\<bar>2 * g * n - 2000 * t\<bar> \<le> g" by (simp add: D g_def)
  have "\<bar>n - 1000 * t / g\<bar> = \<bar>2 * g * n - 2000 * t\<bar> / (2 * g)"
  proof -
    have "n - 1000 * t / g = (2 * g * n - 2000 * t) / (2 * g)"
      using g by (simp add: field_simps)
    then show ?thesis using g by (simp add: abs_of_pos del: times_divide_eq_left)
  qed
  also have "\<dots> \<le> g / (2 * g)"
    using le g by (intro divide_right_mono) simp_all
  also have "\<dots> = 1 / 2" using g by simp
  finally show ?thesis by (simp add: n_def t_def g_def)
qed


lemma floor_log2_unique:
  assumes "2 powi k \<le> a" and "a < 2 powi (k + 1)"
  shows "floor_log2 a = k"
proof -
  have "(0 :: rat) < 2 powi k" by simp
  with assms(1) have pos: "0 < a" by linarith
  note b = floor_log2_bounds [OF pos]
  have "\<not> k + 1 \<le> floor_log2 a"
  proof
    assume "k + 1 \<le> floor_log2 a"
    then have "(2 :: rat) powi (k + 1) \<le> 2 powi floor_log2 a"
      by (intro power_int_increasing) simp_all
    with b(1) assms(2) show False by linarith
  qed
  moreover have "\<not> floor_log2 a + 1 \<le> k"
  proof
    assume "floor_log2 a + 1 \<le> k"
    then have "(2 :: rat) powi (floor_log2 a + 1) \<le> 2 powi k"
      by (intro power_int_increasing) simp_all
    with b(2) assms(1) show False by linarith
  qed
  ultimately show ?thesis by linarith
qed

lemma round_half_even_unique:
  assumes "\<bar>of_int n - m\<bar> < 1 / 2"
  shows "round_half_even m = n"
proof -
  have "\<bar>of_int (round_half_even m) - m\<bar> \<le> 1 / 2"
    by (rule round_half_even_close)
  with assms have "\<bar>(of_int (round_half_even m) :: rat) - of_int n\<bar> < 1" by linarith
  then have "\<bar>(of_int (round_half_even m - n) :: rat)\<bar> < of_int 1" by simp
  then have "\<bar>round_half_even m - n\<bar> < 1"
    by (simp only: of_int_abs [symmetric] of_int_less_iff)
  then show ?thesis by simp
qed

lemma round_double_normal:
  assumes "2 powi (e + 52) \<le> a" and "a < 2 powi (e + 53)" and "- 1074 \<le> e"
    and "\<bar>of_int n - a / 2 powi e\<bar> < 1 / 2" and "of_int n * 2 powi e < (2 :: rat) powi 1024"
  shows "round_double a = Fin (of_int n * 2 powi e)"
proof -
  have "(0 :: rat) < 2 powi (e + 52)" by simp
  with assms(1) have pos: "0 < a" by linarith
  have "floor_log2 a = e + 52"
    using assms(1, 2) by (intro floor_log2_unique) (simp_all add: add.commute add.left_commute)
  with assms(3) have u: "ulp_exponent a = e"
    by (simp add: ulp_exponent_def)
  have n: "round_half_even (a / 2 powi e) = n"
    using assms(4) by (rule round_half_even_unique)
  from pos assms(5) show ?thesis
    by (simp add: round_double_def Let_def abs_of_pos u n)
qed

lemma example_23_80:
  obtains x where "num_mul (num_div (Fin 23) (Fin 80)) (Fin 100) = Fin x" 
    "tenths \<bar>x\<bar> = 287" "0 \<le> x" "x < 100"
proof -
  define x1 :: rat where "x1 = of_int 5179139571476070 * 2 powi (- 54)"
  define x2 :: rat where "x2 = of_int 8092405580431359 * 2 powi (- 48)"
  have "round_double (23 / 80) = Fin x1"
    unfolding x1_def by (rule round_double_normal) (simp_all add: power_int_minus)
  then have d: "num_div (Fin 23) (Fin 80) = Fin x1" by simp
  have "round_double (x1 * 100) = Fin x2"
    unfolding x2_def by (rule round_double_normal) (simp_all add: x1_def power_int_minus)
  then have m: "num_mul (Fin x1) (Fin 100) = Fin x2" by simp
  have "\<lfloor>x2 * 10 + 1 / 2\<rfloor> = 287"
    by (rule floor_unique) (simp_all add: x2_def power_int_minus)
  moreover have "0 \<le> x2" "x2 < 100" by (simp_all add: x2_def power_int_minus)
  ultimately have "tenths \<bar>x2\<bar> = 287" "0 \<le> x2" "x2 < 100"
    by (simp_all add: tenths_def)
  with d m show ?thesis by (intro that [of x2]) simp_all
qed

text \<open>The share of 23 in 80 is 28.75 percent; the quotient rounds to a double just below
  0.2875, its product with 100 to one just below 28.75, and the page shows 28.7.\<close>

lemma share_of_23_in_80: "percentage [share_record] ''All'' ''USA'' = Str ''28.7''"
proof -
  have numeric: "\<forall>r \<in> set [share_record]. \<forall>c \<in> set countries.
             truthy (obj_get r c) \<longrightarrow> (\<exists>q. obj_get r c = Num (Fin q))"
    by (simp add: share_record_def countries_def obj_get_def)
  have usa: "''USA'' \<in> set countries"
    by (simp add: countries_def)
  have sums: "spec_total (filteredRecords [share_record] ''All'') ''USA'' = 23"
    "spec_grandTotal (filteredRecords [share_record] ''All'') = 80"
    by (simp_all add: filteredRecords_def spec_total_def spec_grandTotal_def count_of_def
        countries_def share_record_def obj_get_def)
  obtain x where x: "num_mul (num_div (Fin 23) (Fin 80)) (Fin 100) = Fin x"
    "tenths \<bar>x\<bar> = 287" "0 \<le> x" "x < 100"
    by (rule example_23_80)
  have digits: "show_nat 28 = ''28''" "show_nat 7 = ''7''"
    by code_simp+
  from x have "\<bar>x\<bar> < 10 ^ 21" by simp
  then have "toFixed1 (Fin x) = ''28.7''"
    using x(2, 3) by (simp add: toFixed1_digits digits)
  with percentage_numeric [OF numeric usa, of "''All''"] show ?thesis
    by (simp only: sums x(1)) simp
qed

text \<open>
  C1 (amended). On the destination page, for records whose country counts are whole
  numbers (or falsy) with magnitudes adding up to at most \<open>10 ^ 12\<close>, the total of a
  country is the specification's total over the selected records and \<open>totalEmigrants\<close>
  is its grand total. When the grand total is positive, the percentage shown is
  \<open>toFixed(1)\<close> of the binary64 value of \<open>total / grandTotal * 100\<close>: a numeral with one
  decimal, signed as the total is, that is within 0.05 of the exact percentage, that
  is, the percentage rounded to one decimal place (when the exact percentage lies
  halfway between two such numerals, the rounding of the doubles decides between
  them). When the grand total is zero or negative, the percentage is the number 0; the
  division is never made with a divisor that is not positive.
\<close>

theorem percentage_shown:
  assumes "\<forall>r \<in> set recs. \<forall>c \<in> set countries.
             truthy (obj_get r c) \<longrightarrow> (\<exists>k::int. obj_get r c = Num (Fin (of_int k)))"
    and "spec_magnitude (filteredRecords recs selected) \<le> 10 ^ 12"
    and "country \<in> set countries"
  shows "country_total (filteredRecords recs selected) country
      = Num (Fin (spec_total (filteredRecords recs selected) country))
    \<and> totalEmigrants recs selected
        = Num (Fin (spec_grandTotal (filteredRecords recs selected)))
    \<and> (0 < spec_grandTotal (filteredRecords recs selected) \<longrightarrow>
         percentage recs selected country
           = Str (toFixed1
                    (num_mul
                       (num_div (Fin (spec_total (filteredRecords recs selected) country))
                          (Fin (spec_grandTotal (filteredRecords recs selected))))
                       (Fin 100)))
         \<and> (\<exists>n. percentage recs selected country
                  = Str ((if spec_total (filteredRecords recs selected) country < 0
                          then ''-'' else [])
                         @ show_nat (n div 10) @ ''.'' @ show_nat (n mod 10))
              \<and> \<bar>of_nat n / 10 - \<bar>spec_percentage (filteredRecords recs selected) country\<bar>\<bar>
                  \<le> 1 / 20))
    \<and> (spec_grandTotal (filteredRecords recs selected) \<le> 0 \<longrightarrow>
         percentage recs selected country = Num (Fin 0))"
proof -
  define F where "F = filteredRecords recs selected"
  have numeric: "\<forall>r \<in> set recs. \<forall>c \<in> set countries.
             truthy (obj_get r c) \<longrightarrow> (\<exists>q. obj_get r c = Num (Fin q))"
    using assms(1) by blast
  have whole: "\<forall>c \<in> set countries. \<forall>r \<in> set F. count_of r c \<in> \<int>"
    using assms(1) filtered_subset [of recs selected] unfolding F_def
    by (blast intro: count_whole)
  have "\<forall>r \<in> set F. truthy (obj_get r country) \<longrightarrow> (\<exists>q. obj_get r country = Num (Fin q))"
    using numeric assms(3) filtered_subset [of recs selected] unfolding F_def by blast
  then have total: "country_total F country = Num (Fin (spec_total F country))"
    by (rule country_total_sum)
  have grand: "totalEmigrants recs selected = Num (Fin (spec_grandTotal F))"
    unfolding F_def by (rule totalEmigrants_sum [OF numeric])
  note shown = percentage_numeric [OF numeric assms(3), of selected, folded F_def]
  have "spec_total F country \<in> \<int>"
    unfolding spec_total_def using whole assms(3) by (intro sum_whole) blast
  then obtain T :: int where T: "spec_total F country = of_int T"
    by (rule Ints_cases)
  have "\<forall>c \<in> set countries. spec_total F c \<in> \<int>"
    unfolding spec_total_def using whole by (blast intro: sum_whole)
  then have "spec_grandTotal F \<in> \<int>"
    unfolding spec_grandTotal_def by (rule sum_whole)
  then obtain G :: int where G: "spec_grandTotal F = of_int G"
    by (rule Ints_cases)
  have "\<bar>spec_total F country\<bar> \<le> 10 ^ 12"
    using spec_total_bound [OF assms(3), of F] assms(2) unfolding F_def by linarith
  then have "(of_int \<bar>T\<bar> :: rat) \<le> of_int (10 ^ 12)" by (simp add: T)
  then have T_small: "\<bar>T\<bar> \<le> 10 ^ 12" by (simp only: of_int_le_iff)
  have "\<bar>spec_grandTotal F\<bar> \<le> 10 ^ 12"
    using spec_grandTotal_bound [of F] assms(2) unfolding F_def by linarith
  then have "(of_int G :: rat) \<le> of_int (10 ^ 12)" by (simp add: G)
  then have G_small: "G \<le> 10 ^ 12" by (simp only: of_int_le_iff)
  have positive: "percentage recs selected country
           = Str (toFixed1 (num_mul (num_div (Fin (spec_total F country))
                                       (Fin (spec_grandTotal F))) (Fin 100)))
         \<and> (\<exists>n. percentage recs selected country
                  = Str ((if spec_total F country < 0 then ''-'' else [])
                         @ show_nat (n div 10) @ ''.'' @ show_nat (n mod 10))
              \<and> \<bar>of_nat n / 10 - \<bar>spec_percentage F country\<bar>\<bar> \<le> 1 / 20)"
    if pos: "0 < spec_grandTotal F"
  proof -
    from pos have G_pos: "0 < G" by (simp add: G)
    from pos shown have first: "percentage recs selected country
        = Str (toFixed1 (num_mul (num_div (Fin (spec_total F country))
                                    (Fin (spec_grandTotal F))) (Fin 100)))"
      by (simp only: if_True)
    obtain x where x: "num_mul (num_div (Fin (of_int T)) (Fin (of_int G))) (Fin 100) = Fin x"
      "\<bar>x - 100 * of_int T / of_int G\<bar>
         \<le> 100 * \<bar>of_int T\<bar> / of_int G * (2 / 2 ^ 53 + 1 / 2 ^ 106)"
      "(x < 0) = (T < 0)" "\<bar>x\<bar> < 10 ^ 21"
      using G_pos G_small T_small by (rule double_percent)
    define n where "n = tenths \<bar>x\<bar>"
    have "toFixed1 (Fin x)
        = (if x < 0 then ''-'' else []) @ show_nat (n div 10) @ ''.'' @ show_nat (n mod 10)"
      unfolding n_def using x(4) by (rule toFixed1_digits)
    moreover have "(x < 0) = (spec_total F country < 0)"
      using x(3) by (simp add: T)
    ultimately have second: "percentage recs selected country
        = Str ((if spec_total F country < 0 then ''-'' else [])
               @ show_nat (n div 10) @ ''.'' @ show_nat (n mod 10))"
      using first x(1) by (simp only: T G)
    have near: "\<bar>(of_nat n :: rat) - 1000 * \<bar>of_int T\<bar> / of_int G\<bar> \<le> 1 / 2"
      unfolding n_def using G_pos T_small x(2) by (rule shown_tenths)
    have "\<bar>spec_percentage F country\<bar> = 100 * \<bar>of_int T\<bar> / of_int G"
      using G_pos by (simp add: spec_percentage_def T G abs_mult abs_of_pos)
    then have "\<bar>of_nat n / 10 - \<bar>spec_percentage F country\<bar>\<bar>
        = \<bar>(of_nat n :: rat) - 1000 * \<bar>of_int T\<bar> / of_int G\<bar> / 10"
      by (simp add: abs_if field_simps)
    with near have third: "\<bar>of_nat n / 10 - \<bar>spec_percentage F country\<bar>\<bar> \<le> 1 / 20"
      by simp
    from first second third show ?thesis by blast
  qed
  have guarded: "percentage recs selected country = Num (Fin 0)"
    if "spec_grandTotal F \<le> 0"
    using that shown by (simp del: num_mul.simps num_div.simps)
  from total grand positive guarded show ?thesis
    unfolding F_def by blast
qed

lemma flow_2019: "filteredRecords flow_records ''2019'' = [flow_records ! 0]"
  by (simp add: filteredRecords_def flow_records_def obj_get_def num_strict_eq_def
      number_parse_defs)

lemma flow_2019_totals:
  "spec_total [flow_records ! 0] ''USA'' = 100"
  "spec_grandTotal [flow_records ! 0] = 150"
  "spec_magnitude [flow_records ! 0] = 150"
  by (simp_all add: spec_total_def spec_grandTotal_def spec_magnitude_def count_of_def
      countries_def flow_records_def obj_get_def)

lemma digits_66_7: "show_nat 66 = ''66''" "show_nat 7 = ''7''"
  by code_simp+

lemma flow_counts_whole:
  "\<forall>r \<in> set flow_records. \<forall>c \<in> set countries.
     truthy (obj_get r c) \<longrightarrow> (\<exists>k::int. obj_get r c = Num (Fin (of_int k)))"
proof -
  have "\<forall>r \<in> set flow_records. \<forall>c \<in> set countries.
      obj_get r c \<in> {Undefined, Num (Fin (of_int 100)), Num (Fin (of_int 50)),
        Num (Fin (of_int 80)), Num (Fin (of_int 70))}"
    by (simp add: flow_records_def countries_def obj_get_def)
  then show ?thesis by fastforce
qed

theorem percentage_shown_witness:
  "country_total (filteredRecords flow_records ''2019'') ''USA'' = Num (Fin 100)
   \<and> totalEmigrants flow_records ''2019'' = Num (Fin 150)
   \<and> percentage flow_records ''2019'' ''USA'' = Str ''66.7''
   \<and> percentage [] ''All'' ''USA'' = Num (Fin 0)"
proof -
  have usa: "''USA'' \<in> set countries"
    by (simp add: countries_def)
  have small: "spec_magnitude (filteredRecords flow_records ''2019'') \<le> 10 ^ 12"
    by (simp add: flow_2019 flow_2019_totals)
  have share: "spec_percentage [flow_records ! 0] ''USA'' = 200 / 3"
    by (simp add: spec_percentage_def flow_2019_totals)
  note inst = percentage_shown [OF flow_counts_whole small usa, unfolded flow_2019
      flow_2019_totals share]
  from inst have a: "country_total [flow_records ! 0] ''USA'' = Num (Fin 100)"
    and b: "totalEmigrants flow_records ''2019'' = Num (Fin 150)"
    by blast+
  have "(0 :: rat) < 150" by simp
  with inst [THEN conjunct2, THEN conjunct2, THEN conjunct1]
  have "\<exists>n. percentage flow_records ''2019'' ''USA''
        = Str ((if (100 :: rat) < 0 then ''-'' else [])
               @ show_nat (n div 10) @ ''.'' @ show_nat (n mod 10))
      \<and> \<bar>of_nat n / 10 - \<bar>200 / 3 :: rat\<bar>\<bar> \<le> 1 / 20"
    by blast
  then obtain n where n: "percentage flow_records ''2019'' ''USA''
        = Str ((if (100 :: rat) < 0 then ''-'' else [])
               @ show_nat (n div 10) @ ''.'' @ show_nat (n mod 10))"
      "\<bar>of_nat n / 10 - \<bar>200 / 3 :: rat\<bar>\<bar> \<le> 1 / 20"
    by blast
  from n(2) have "(666 :: rat) < of_nat n" "(of_nat n :: rat) < 668"
    by linarith+
  then have "666 < n" "n < 668" by linarith+
  then have "n = 667" by simp
  with n(1) have c: "percentage flow_records ''2019'' ''USA'' = Str ''66.7''"
    by (simp add: digits_66_7)
  have none: "spec_grandTotal (filteredRecords [] ''All'') = 0"
    "spec_magnitude (filteredRecords [] ''All'') \<le> 10 ^ 12"
    by (simp_all add: filteredRecords_def spec_grandTotal_def spec_total_def
        spec_magnitude_def countries_def)
  from percentage_shown [of "[]" "''All''" "''USA''"] usa none
  have d: "percentage [] ''All'' ''USA'' = Num (Fin 0)"
    by simp
  from a b c d show ?thesis by (simp add: flow_2019)
qed

text \<open>
  One record with the count -5 for the USA: the grand total is -5, the specification's
  percentage of the USA is 100, and the page shows 0.
\<close>

theorem percentage_shown_counterexample:
  "spec_total (filteredRecords [negative_record] ''All'') ''USA'' = - 5
   \<and> spec_grandTotal (filteredRecords [negative_record] ''All'') = - 5
   \<and> spec_percentage (filteredRecords [negative_record] ''All'') ''USA'' = 100
   \<and> country_total (filteredRecords [negative_record] ''All'') ''USA'' = Num (Fin (- 5))
   \<and> totalEmigrants [negative_record] ''All'' = Num (Fin (- 5))
   \<and> percentage [negative_record] ''All'' ''USA'' = Num (Fin 0)"
proof -
  have numeric: "\<forall>r \<in> set [negative_record]. \<forall>c \<in> set countries.
             truthy (obj_get r c) \<longrightarrow> (\<exists>q. obj_get r c = Num (Fin q))"
    by (simp add: negative_record_def countries_def obj_get_def)
  have usa: "''USA'' \<in> set countries"
    by (simp add: countries_def)
  have all: "filteredRecords [negative_record] ''All'' = [negative_record]"
    by (simp add: filteredRecords_def)
  have sums: "spec_total [negative_record] ''USA'' = - 5"
    "spec_grandTotal [negative_record] = - 5"
    by (simp_all add: spec_total_def spec_grandTotal_def count_of_def countries_def
        negative_record_def obj_get_def)
  then have share: "spec_percentage [negative_record] ''USA'' = 100"
    by (simp add: spec_percentage_def)
  have "country_total [negative_record] ''USA'' = Num (Fin (- 5))"
    using country_total_sum [of "[negative_record]" "''USA''"] numeric usa sums by simp
  with totalEmigrants_sum [OF numeric, of "''All''"]
    percentage_numeric [OF numeric usa, of "''All''"] sums share
  show ?thesis by (simp add: all del: num_mul.simps num_div.simps)
qed

subsection \<open>The scenario, end to end\<close>

lemma parse_amended: "papa_parse amended_csv = \<lparr>data = example_rows, errors = []\<rparr>"
  by code_simp

lemma parse_spec_csv_errors: "errors (papa_parse spec_csv) = [TooManyFields 1]"
  by code_simp

lemma csv_name: "endsWith (toLowerCase ''emigrants.csv'') ''.csv''"
  by code_simp

lemma civil_field_variants:
  "header_variants Civil ''single'' = [''single'', ''Single'', ''single'']"
  "header_variants Civil ''married'' = [''married'', ''Married'', ''married'']"
  "header_variants Civil ''widower'' = [''widower'', ''Widower'', ''widower'']"
  "header_variants Civil ''separated'' = [''separated'', ''Separated'', ''separated'']"
  "header_variants Civil ''divorced'' = [''divorced'', ''Divorced'', ''divorced'']"
  "header_variants Civil ''notReported'' = [''notReported'', ''NotReported'', ''not Reported'']"
  by code_simp+

lemma auto_ids: "auto_id 0 = ''doc0''" "auto_id (Suc 0) = ''doc1''"
  by code_simp+

lemma example_records: "import_records Civil example_rows = [record_2019, record_2020]"
  unfolding import_records_def example_rows_valid
  by (simp add: example_rows_def row_to_record_def civilStatusFields_def resolve_def
      civil_field_variants obj_get_def js_or_def number_or_zero_def number_parse_defs
      obj_set_def stored_key_def record_2019_def record_2020_def
      del: header_variants.simps)


lemma upload_is_complete:
  "uploaded amended_csv
     = complete Civil \<lparr>data = example_rows, errors = []\<rparr>
         ((mounted Civil empty_store)\<lparr>csvFileName := ''emigrants.csv''\<rparr>)"
  by (simp add: uploaded_def handleCSVUpload_def csv_name parse_amended)

lemma add_two:
  "add_all [record_2019, record_2020] empty_store
     = (Inr (), \<lparr>docs = [(''doc0'', record_2019), (''doc1'', record_2020)], fresh = 2,
                  faults = [], calls = [AddDoc record_2019, AddDoc record_2020]\<rparr>)"
  by (simp add: empty_store_def addDoc_def called_def next_fault_def auto_ids Let_def)

lemma fetched_with_id:
  "spread [(''id'', Str i)] record_2019 = (''id'', Str i) # record_2019"
  "spread [(''id'', Str i)] record_2020 = (''id'', Str i) # record_2020"
  by (simp_all add: spread_def obj_set_def record_2019_def record_2020_def)

lemma uploaded_amended:
  "docs (backend (uploaded amended_csv)) = [(''doc0'', record_2019), (''doc1'', record_2020)]"
  "records (uploaded amended_csv)
     = [(''id'', Str ''doc0'') # record_2019, (''id'', Str ''doc1'') # record_2020]"
  unfolding upload_is_complete
  by (simp_all add: complete_def example_records mounted_def add_two showMessage_def
      fetchData_def getDocs_def called_def next_fault_def fetched_with_id Let_def
      del: add_all.simps)

lemma single_counts:
  "obj_get ((''id'', Str i) # record_2019) ''single'' = Num (Fin 100)"
  "obj_get ((''id'', Str i) # record_2020) ''single'' = Num (Fin 80)"
  "obj_get ((''id'', Str i) # record_2019) ''year'' = Num (Fin 2019)"
  "obj_get ((''id'', Str i) # record_2020) ''year'' = Num (Fin 2020)"
  by (simp_all add: obj_get_def record_2019_def record_2020_def)

lemma scenario_totals:
  "obj_get (totals [(''id'', Str ''doc0'') # record_2019, (''id'', Str ''doc1'') # record_2020]
              ''2019'') ''single'' = Num (Fin 100)"
  "obj_get (totals [(''id'', Str ''doc0'') # record_2019, (''id'', Str ''doc1'') # record_2020]
              ''All'') ''single'' = Num (Fin 180)"
  by (simp_all add: totals_field civilStatusFields_def filteredRecords_def single_counts
      num_strict_eq_def number_parse_defs js_add_def js_or_def)


text \<open>
  C4 (amended). Importing, into an empty collection of the civil status page, the CSV
  with the header \<open>year,single,married\<close> and the rows \<open>2019,100,50\<close> and \<open>2020,80,\<close>
  parses without error into the two example rows and persists exactly two records,
  the year 2019 with single 100 and married 50 and the year 2020 with single 80 and
  married 0, all other categories 0. After the reload, the total of \<open>single\<close> is 100
  under the year filter 2019 and 180 under \<open>All\<close>.
\<close>

theorem scenario_import:
  "papa_parse amended_csv = \<lparr>data = example_rows, errors = []\<rparr>
   \<and> docs (backend (uploaded amended_csv)) = [(''doc0'', record_2019), (''doc1'', record_2020)]
   \<and> obj_get (totals (records (uploaded amended_csv)) ''2019'') ''single'' = Num (Fin 100)
   \<and> obj_get (totals (records (uploaded amended_csv)) ''All'') ''single'' = Num (Fin 180)"
  by (simp add: parse_amended uploaded_amended scenario_totals)

text \<open>
  With the text as the specification gives it, the second row has four cells under a
  header of three: the parser reports a field mismatch, the import stops with the parse
  error message, and nothing is persisted.
\<close>

theorem scenario_import_counterexample:
  "errors (papa_parse spec_csv) = [TooManyFields 1]
   \<and> docs (backend (uploaded spec_csv)) = []
   \<and> calls (backend (uploaded spec_csv)) = []
   \<and> message (uploaded spec_csv) = (''Error parsing CSV file'', ''error'')"
  by (simp add: uploaded_def handleCSVUpload_def csv_name complete_def parse_spec_csv_errors
      mounted_def showMessage_def empty_store_def)

end
